theory Spec2Isabelle
  imports Main
begin

section \<open>Data model\<close>

text \<open>
  The inventory backend keeps three MongoDB collections that matter here: users,
  products and handovers, plus one counter document that feeds the human-facing
  product numbers. A collection is a list of documents in insertion order; a
  document is a record whose first field is its \<open>_id\<close>. ObjectIds and dates are
  natural numbers, quantities are integers (the routes accept them only after
  \<open>isInt\<close> validation), text is a character list.
\<close>

type_synonym oid = nat
type_synonym date = nat

subsection \<open>Users (models/User.js)\<close>

datatype role = Admin | Manager | Employee

record perms =
  canViewProducts :: bool
  canAddProducts :: bool
  canEditProducts :: bool
  canDeleteProducts :: bool
  canManageProducts :: bool
  canViewOrders :: bool
  canManageOrders :: bool
  canManageUsers :: bool
  canRequestHandover :: bool
  canReturnHandover :: bool

record user =
  uid :: oid
  firstName :: string
  lastName :: string
  email :: string
  role :: role
  isActive :: bool
  permissions :: perms

definition FAILSAFE_EMAIL :: string where
  "FAILSAFE_EMAIL = ''irtazamadadnaqvi@iwiz.com''"

text \<open>
  \<open>userSchema.pre('save')\<close>: the hook assigns a fresh permissions object on every
  save. The failsafe account is also forced active and to the admin role.
\<close>

definition pre_save :: "user \<Rightarrow> user" where
  "pre_save u =
     (if email u = FAILSAFE_EMAIL then
        u\<lparr> isActive := True,
           role := Admin,
           permissions := \<lparr> canViewProducts = True,
                            canAddProducts = True,
                            canEditProducts = True,
                            canDeleteProducts = True,
                            canManageProducts = True,
                            canViewOrders = True,
                            canManageOrders = True,
                            canManageUsers = True,
                            canRequestHandover = False,
                            canReturnHandover = False \<rparr> \<rparr>
      else
        u\<lparr> permissions := \<lparr> canViewProducts = True,
                            canAddProducts = (role u = Admin \<or> role u = Manager),
                            canEditProducts = (role u = Admin \<or> role u = Manager),
                            canDeleteProducts = (role u = Admin),
                            canManageProducts = (role u = Admin \<or> role u = Manager),
                            canViewOrders = True,
                            canManageOrders = (role u = Admin \<or> role u = Manager),
                            canManageUsers = (role u = Admin),
                            canRequestHandover = (role u = Employee),
                            canReturnHandover = (role u = Employee) \<rparr> \<rparr>)"

text \<open>
  The role-to-capability table of the specification (section 4.1), written from
  its rows: view products, add/edit/manage products, delete products, manage
  users, request handover, return handover. The two order flags of the schema
  are not in the table; the code derives them from the role as well
  (view: everyone, manage: admin and manager).
\<close>

datatype capability =
  ViewProducts | AddEditManageProducts | DeleteProducts | ManageUsers
  | RequestHandover | ReturnHandover

fun spec_table :: "role \<Rightarrow> capability \<Rightarrow> bool" where
  "spec_table Admin ViewProducts = True"
| "spec_table Admin AddEditManageProducts = True"
| "spec_table Admin DeleteProducts = True"
| "spec_table Admin ManageUsers = True"
| "spec_table Admin RequestHandover = False"
| "spec_table Admin ReturnHandover = False"
| "spec_table Manager ViewProducts = True"
| "spec_table Manager AddEditManageProducts = True"
| "spec_table Manager DeleteProducts = False"
| "spec_table Manager ManageUsers = False"
| "spec_table Manager RequestHandover = False"
| "spec_table Manager ReturnHandover = False"
| "spec_table Employee ViewProducts = True"
| "spec_table Employee AddEditManageProducts = False"
| "spec_table Employee DeleteProducts = False"
| "spec_table Employee ManageUsers = False"
| "spec_table Employee RequestHandover = True"
| "spec_table Employee ReturnHandover = True"

text \<open>The capability vector the table prescribes for a role, as stored flags.\<close>

definition spec_flags :: "role \<Rightarrow> perms" where
  "spec_flags r =
     \<lparr> canViewProducts = spec_table r ViewProducts,
       canAddProducts = spec_table r AddEditManageProducts,
       canEditProducts = spec_table r AddEditManageProducts,
       canDeleteProducts = spec_table r DeleteProducts,
       canManageProducts = spec_table r AddEditManageProducts,
       canViewOrders = True,
       canManageOrders = (r = Admin \<or> r = Manager),
       canManageUsers = spec_table r ManageUsers,
       canRequestHandover = spec_table r RequestHandover,
       canReturnHandover = spec_table r ReturnHandover \<rparr>"

text \<open>
  \<open>checkPermission(permission)\<close> of middleware/auth.js reads one flag of the
  authenticated user; the flag names are the keys of the permissions object.
\<close>

datatype permission =
  PcanViewProducts | PcanAddProducts | PcanEditProducts | PcanDeleteProducts
  | PcanManageProducts | PcanViewOrders | PcanManageOrders | PcanManageUsers
  | PcanRequestHandover | PcanReturnHandover

fun flag :: "perms \<Rightarrow> permission \<Rightarrow> bool" where
  "flag p PcanViewProducts = canViewProducts p"
| "flag p PcanAddProducts = canAddProducts p"
| "flag p PcanEditProducts = canEditProducts p"
| "flag p PcanDeleteProducts = canDeleteProducts p"
| "flag p PcanManageProducts = canManageProducts p"
| "flag p PcanViewOrders = canViewOrders p"
| "flag p PcanManageOrders = canManageOrders p"
| "flag p PcanManageUsers = canManageUsers p"
| "flag p PcanRequestHandover = canRequestHandover p"
| "flag p PcanReturnHandover = canReturnHandover p"

definition checkPermission :: "permission \<Rightarrow> user \<Rightarrow> bool" where
  "checkPermission perm u = flag (permissions u) perm"

subsection \<open>Products (models/Product.js)\<close>

text \<open>
  Of a product the model carries its \<open>_id\<close>, the human-facing sequence number
  \<open>productId\<close> (absent on legacy documents: the index is sparse), its name, the
  on-hand count \<open>stock.quantity\<close>, \<open>stock.lastRestocked\<close> and the \<open>createdAt\<close>
  timestamp. Prices, units, images and tags play no part in stock accounting.
\<close>

record product =
  pid :: oid
  productId :: "nat option"
  name :: string
  stock_quantity :: int
  lastRestocked :: date
  createdAt :: date

subsection \<open>Quantities as the request body delivers them\<close>

text \<open>
  A quantity arrives as a JSON number or, from a form-encoded body or a quoted
  JSON value, as a string. The validator \<open>isInt({ min: 1 })\<close> tests the value's
  text and converts nothing, so the route computes with the raw value:
  a comparison with a number reads a string as the number it denotes, and
  \<open>+\<close> with a string operand concatenates texts.
\<close>

datatype body_value = Num int | Str string

definition is_digit :: "char \<Rightarrow> bool" where
  "is_digit c = (48 \<le> (of_char c :: nat) \<and> (of_char c :: nat) \<le> 57)"

definition is_digits :: "string \<Rightarrow> bool" where
  "is_digits t = (t \<noteq> [] \<and> list_all is_digit t)"

definition digits_value :: "string \<Rightarrow> nat" where
  "digits_value t = foldl (\<lambda>n c. 10 * n + (of_char c - 48)) 0 t"

text \<open>
  The number a text denotes (\<open>None\<close> is NaN). Of the numeric literals of the
  language this covers the decimal integers with an optional sign and the
  empty text; no other text can arise from a validated quantity and the
  digits of a stock.
\<close>

definition to_number_str :: "string \<Rightarrow> int option" where
  "to_number_str t =
     (case t of
        [] \<Rightarrow> Some 0
      | c # r \<Rightarrow>
          if c = CHR ''+'' \<and> is_digits r then Some (int (digits_value r))
          else if c = CHR ''-'' \<and> is_digits r then Some (- int (digits_value r))
          else if is_digits t then Some (int (digits_value t))
          else None)"

definition to_number :: "body_value \<Rightarrow> int option" where
  "to_number v = (case v of Num n \<Rightarrow> Some n | Str t \<Rightarrow> to_number_str t)"

text \<open>The decimal text of a number.\<close>

function dec :: "nat \<Rightarrow> string" where
  "dec n = (if n < 10 then [''0123456789'' ! n]
            else dec (n div 10) @ [''0123456789'' ! (n mod 10)])"
  by pat_completeness auto
termination
  by (relation "measure id") auto

definition to_string :: "body_value \<Rightarrow> string" where
  "to_string v =
     (case v of
        Num n \<Rightarrow> (if n < 0 then CHR ''-'' # dec (nat (- n)) else dec (nat n))
      | Str t \<Rightarrow> t)"

text \<open>\<open>a + b\<close>: the sum of two numbers, the concatenation otherwise.\<close>

definition js_plus :: "body_value \<Rightarrow> body_value \<Rightarrow> body_value" where
  "js_plus a b =
     (case (a, b) of
        (Num m, Num n) \<Rightarrow> Num (m + n)
      | _ \<Rightarrow> Str (to_string a @ to_string b))"

text \<open>\<open>v > n\<close> and \<open>v >= n\<close> for a number \<open>n\<close>: false when \<open>v\<close> is NaN.\<close>

definition js_gt :: "body_value \<Rightarrow> int \<Rightarrow> bool" where
  "js_gt v n = (case to_number v of None \<Rightarrow> False | Some m \<Rightarrow> m > n)"

definition js_ge :: "body_value \<Rightarrow> int \<Rightarrow> bool" where
  "js_ge v n = (case to_number v of None \<Rightarrow> False | Some m \<Rightarrow> m \<ge> n)"

text \<open>
  \<open>isInt({ min: m })\<close>: the value's text is an optional sign and one or more
  digits, and the value is at least \<open>m\<close>. The text of a number in the model is
  always such a text.
\<close>

definition isInt_min :: "int \<Rightarrow> body_value \<Rightarrow> bool" where
  "isInt_min m v =
     (case v of
        Num n \<Rightarrow> m \<le> n
      | Str t \<Rightarrow>
          (case t of
             [] \<Rightarrow> False
           | c # r \<Rightarrow> (if c = CHR ''+'' \<or> c = CHR ''-'' then is_digits r else is_digits t))
          \<and> js_ge v m)"

text \<open>
  The cast of a \<open>Number\<close> path of a schema: a text is replaced by the number
  it denotes; \<open>None\<close> is the cast error that the next save throws.
\<close>

definition cast_number :: "body_value \<Rightarrow> int option" where
  "cast_number v = (case v of Num n \<Rightarrow> Some n | Str t \<Rightarrow> if t = [] then None else to_number_str t)"

subsection \<open>Handovers (models/HandOver.js)\<close>

datatype status = Pending | HandedOver | Returned | Rejected

text \<open>
  The first sixteen fields are the paths of \<open>handOverSchema\<close> (\<open>notesH\<close> is
  its path \<open>notes\<close>). The last two,
  \<open>returnedQuantity\<close> and \<open>returnDate\<close>, are properties that the employee return
  route assigns on the document in memory; the schema declares no such paths.
\<close>

record handover =
  hid :: oid
  product :: oid
  employee :: oid
  handedOverBy :: "oid option"
  quantity :: int
  purpose :: "string option"
  notesH :: "string option"
  status :: status
  handOverDate :: date
  expectedReturnDate :: "date option"
  actualReturnDate :: "date option"
  returnedBy :: "oid option"
  returnNotes :: "string option"
  rejectedBy :: "oid option"
  rejectionReason :: "string option"
  approvalNotes :: "string option"
  returnedQuantity :: "body_value option"
  returnDate :: "date option"

subsection \<open>The store\<close>

record store =
  users :: "user list"
  products :: "product list"
  handovers :: "handover list"
  counter :: "nat option"

text \<open>
  Responses. Each constructor is one response of the routes:
  \<open>AccessDenied\<close> is the 403 of \<open>checkPermission\<close>, \<open>ValidationError\<close> the 400 of
  the express-validator chain, \<open>NotFound\<close> a 404, \<open>InsufficientStock\<close> the 400
  "Insufficient stock available", \<open>NotOwner\<close> the 403 "You can only return your
  own handovers", \<open>NotActive\<close> the 400 "Handover is not active",
  \<open>ReturnExceedsBorrowed\<close> the 400 "Return quantity cannot exceed borrowed
  quantity", \<open>AlreadyReturned\<close> the 400 "Item already returned", \<open>NotPending\<close>
  the 400 "Handover request is not pending", \<open>InvalidOperation\<close> the 400
  "Operation must be add or subtract", \<open>ImageRequired\<close> the 400 "At least one
  product image is required", \<open>DuplicateProductId\<close> the 400 "Product with this
  ID already exists", and \<open>ServerError\<close> the 500 of a \<open>catch\<close> block (an
  exception thrown by a save or by a property read on \<open>null\<close>).
\<close>

datatype error =
  AccessDenied | ValidationError | NotFound | InsufficientStock | NotOwner
  | NotActive | ReturnExceedsBorrowed | AlreadyReturned | NotPending
  | InvalidOperation | ImageRequired | DuplicateProductId | ServerError

text \<open>
  The specification's class InvalidTransition (section 7) covers the three
  responses of a failed status guard.
\<close>

definition is_InvalidTransition :: "error \<Rightarrow> bool" where
  "is_InvalidTransition e = (e = NotPending \<or> e = AlreadyReturned \<or> e = NotActive)"

subsection \<open>Text fields\<close>

text \<open>
  String paths of the handover schema are declared \<open>trim: true\<close> with a
  \<open>maxlength\<close> validator: an assignment trims, a save rejects a text that is
  too long. \<open>is_space\<close> lists the white space a one-byte character can be.
\<close>

definition is_space :: "char \<Rightarrow> bool" where
  "is_space c = (c = CHR '' '' \<or> c = CHR 0x09 \<or> c = CHR 0x0A \<or> c = CHR 0x0B
                 \<or> c = CHR 0x0C \<or> c = CHR 0x0D \<or> c = CHR 0xA0)"

definition trim :: "string \<Rightarrow> string" where
  "trim t = rev (dropWhile is_space (rev (dropWhile is_space t)))"

definition trim_opt :: "string option \<Rightarrow> string option" where
  "trim_opt v = map_option trim v"

definition maxlength :: "nat \<Rightarrow> string option \<Rightarrow> bool" where
  "maxlength n v = (case v of None \<Rightarrow> True | Some t \<Rightarrow> length t \<le> n)"

text \<open>A template literal prints a missing value as the word undefined.\<close>

definition interpolate :: "string option \<Rightarrow> string" where
  "interpolate v = (case v of None \<Rightarrow> ''undefined'' | Some t \<Rightarrow> t)"

text \<open>\<open>v || d\<close> on an optional string: the empty string is falsy as well.\<close>

definition or_default :: "string option \<Rightarrow> string \<Rightarrow> string" where
  "or_default v d = (case v of None \<Rightarrow> d | Some t \<Rightarrow> if t = [] then d else t)"

subsection \<open>Collection access\<close>

definition findUser :: "store \<Rightarrow> oid \<Rightarrow> user option" where
  "findUser s i = find (\<lambda>u. uid u = i) (users s)"

definition findProduct :: "store \<Rightarrow> oid \<Rightarrow> product option" where
  "findProduct s i = find (\<lambda>p. pid p = i) (products s)"

definition findHandover :: "store \<Rightarrow> oid \<Rightarrow> handover option" where
  "findHandover s i = find (\<lambda>h. hid h = i) (handovers s)"

text \<open>
  What a save writes of a handover document: the schema's paths. The two
  properties outside the schema stay on the in-memory document only.
\<close>

definition schema_paths :: "handover \<Rightarrow> handover" where
  "schema_paths h = h\<lparr> returnedQuantity := None, returnDate := None \<rparr>"

text \<open>
  The validators of \<open>handOverSchema\<close>, run in full when a new document is
  saved: quantity at least 1, the issuer required once the status is
  handed_over, and the length bounds of the text paths.
\<close>

definition handover_valid :: "handover \<Rightarrow> bool" where
  "handover_valid h =
     (1 \<le> quantity h
      \<and> (if status h = HandedOver then handedOverBy h \<noteq> None else True)
      \<and> maxlength 200 (purpose h)
      \<and> maxlength 500 (notesH h)
      \<and> maxlength 500 (returnNotes h)
      \<and> maxlength 500 (rejectionReason h)
      \<and> maxlength 500 (approvalNotes h))"

text \<open>
  Saving a new handover: validation, then the insert, which the unique index on
  \<open>_id\<close> refuses for an id already present. \<open>None\<close> is the exception.
\<close>

definition handover_insert :: "handover \<Rightarrow> store \<Rightarrow> store option" where
  "handover_insert h s =
     (if \<not> handover_valid h then None
      else if findHandover s (hid h) \<noteq> None then None
      else Some (s\<lparr> handovers := handovers s @ [schema_paths h] \<rparr>))"

text \<open>Saving a loaded handover writes it over the stored document of that id.\<close>

definition handover_save :: "handover \<Rightarrow> store \<Rightarrow> store" where
  "handover_save h s =
     s\<lparr> handovers := map (\<lambda>x. if hid x = hid h then schema_paths h else x) (handovers s) \<rparr>"

definition handover_delete :: "oid \<Rightarrow> store \<Rightarrow> store" where
  "handover_delete i s = s\<lparr> handovers := filter (\<lambda>x. hid x \<noteq> i) (handovers s) \<rparr>"

text \<open>
  \<open>product.save()\<close> on a loaded product \<open>old\<close> whose quantity the route has
  changed to that of \<open>new\<close>. An unchanged quantity is not a modification and
  writes nothing. A changed one is validated (\<open>min: 0\<close>, \<open>None\<close> is the
  validation exception) and the \<open>pre('save')\<close> hook stamps \<open>lastRestocked\<close>.
\<close>

definition product_save :: "date \<Rightarrow> product \<Rightarrow> product \<Rightarrow> store \<Rightarrow> store option" where
  "product_save now old new s =
     (if stock_quantity new = stock_quantity old then Some s
      else if stock_quantity new < 0 then None
      else Some (s\<lparr> products :=
                      map (\<lambda>q. if pid q = pid old then new\<lparr> lastRestocked := now \<rparr> else q)
                          (products s) \<rparr>))"

section \<open>The handover routes (routes/handovers.js)\<close>

text \<open>
  Every route takes the user \<open>caller\<close> that the \<open>auth\<close> middleware has
  loaded into \<open>req.user\<close>, its parameters, the clock reading \<open>now\<close> for
  \<open>new Date()\<close>, and the store; a route that creates a document also takes
  the ObjectId \<open>newId\<close> that the driver generates for it. It returns the
  response and the store it leaves behind; a route that fails after a first
  write leaves that write in place, as the code does. The first test of every
  route is its \<open>checkPermission\<close> middleware, the second its validator chain.
\<close>

type_synonym 'a response = "(error + 'a) \<times> store"

subsection \<open>POST /api/handovers: direct handover\<close>

record direct_body =
  productId_in :: oid
  employeeId_in :: oid
  quantity_in :: int
  purpose_in :: "string option"
  notes_in :: "string option"
  expectedReturnDate_in :: "date option"
  handedOverBy_in :: "oid option"

text \<open>
  \<open>handedOverBy || req.user.id\<close>: the body's field when it is there, the
  caller's id otherwise (\<open>None\<close> is a field that is absent or falsy).
\<close>

definition issuer :: "oid option \<Rightarrow> user \<Rightarrow> oid" where
  "issuer field caller = (case field of Some x \<Rightarrow> x | None \<Rightarrow> uid caller)"

definition createDirectHandover ::
  "user \<Rightarrow> direct_body \<Rightarrow> date \<Rightarrow> oid \<Rightarrow> store \<Rightarrow> handover response" where
  "createDirectHandover caller body now newId s =
     (if \<not> checkPermission PcanManageProducts caller then (Inl AccessDenied, s)
      else if quantity_in body < 1 \<or> \<not> maxlength 200 (purpose_in body)
              \<or> \<not> maxlength 500 (notes_in body) then (Inl ValidationError, s)
      else case findProduct s (productId_in body) of
        None \<Rightarrow> (Inl NotFound, s)
      | Some pr \<Rightarrow>
          (if stock_quantity pr < quantity_in body then (Inl InsufficientStock, s)
           else (case findUser s (employeeId_in body) of
            None \<Rightarrow> (Inl NotFound, s)
          | Some emp \<Rightarrow>
             (let h = \<lparr> hid = newId,
                        product = productId_in body,
                        employee = employeeId_in body,
                        handedOverBy = Some (issuer (handedOverBy_in body) caller),
                        quantity = quantity_in body,
                        purpose = trim_opt (purpose_in body),
                        notesH = trim_opt (notes_in body),
                        status = HandedOver,
                        handOverDate = now,
                        expectedReturnDate = expectedReturnDate_in body,
                        actualReturnDate = None,
                        returnedBy = None,
                        returnNotes = None,
                        rejectedBy = None,
                        rejectionReason = None,
                        approvalNotes = None,
                        returnedQuantity = None,
                        returnDate = None \<rparr>
              in (case handover_insert h s of
                   None \<Rightarrow> (Inl ServerError, s)
                 | Some s1 \<Rightarrow>
                     (case product_save now pr
                             (pr\<lparr> stock_quantity := stock_quantity pr - quantity_in body \<rparr>) s1 of
                        None \<Rightarrow> (Inl ServerError, s1)
                      | Some s2 \<Rightarrow> (Inr h, s2)))))))"

subsection \<open>PUT /api/handovers/:id/return: return marked by a manager\<close>

definition markReturnedByManager ::
  "user \<Rightarrow> oid \<Rightarrow> string option \<Rightarrow> date \<Rightarrow> store \<Rightarrow> handover response" where
  "markReturnedByManager caller i returnNotes_in now s =
     (if \<not> checkPermission PcanManageProducts caller then (Inl AccessDenied, s)
      else if \<not> maxlength 500 returnNotes_in then (Inl ValidationError, s)
      else case findHandover s i of
        None \<Rightarrow> (Inl NotFound, s)
      | Some h \<Rightarrow>
          (if status h = Returned then (Inl AlreadyReturned, s)
           else
            (let h' = h\<lparr> status := Returned,
                         actualReturnDate := Some now,
                         returnedBy := Some (uid caller),
                         returnNotes := trim_opt returnNotes_in \<rparr>;
                 s1 = handover_save h' s
             in (case findProduct s (product h) of
                  None \<Rightarrow> (Inl ServerError, s1)
                | Some pr \<Rightarrow>
                    (case product_save now pr
                            (pr\<lparr> stock_quantity := stock_quantity pr + quantity h \<rparr>) s1 of
                       None \<Rightarrow> (Inl ServerError, s1)
                     | Some s2 \<Rightarrow> (Inr h', s2))))))"

subsection \<open>POST /api/handovers/request: request by an employee\<close>

definition createHandoverRequest ::
  "user \<Rightarrow> oid \<Rightarrow> int \<Rightarrow> string \<Rightarrow> date \<Rightarrow> oid \<Rightarrow> store \<Rightarrow> handover response" where
  "createHandoverRequest caller prodId qty reason now newId s =
     (if \<not> checkPermission PcanRequestHandover caller then (Inl AccessDenied, s)
      else if qty < 1 \<or> reason = [] \<or> 500 < length reason then (Inl ValidationError, s)
      else case findProduct s prodId of
        None \<Rightarrow> (Inl NotFound, s)
      | Some pr \<Rightarrow>
         (let h = \<lparr> hid = newId,
                    product = prodId,
                    employee = uid caller,
                    handedOverBy = None,
                    quantity = qty,
                    purpose = Some (trim reason),
                    notesH = Some (trim (''Requested by employee: '' @ reason)),
                    status = Pending,
                    handOverDate = now,
                    expectedReturnDate = None,
                    actualReturnDate = None,
                    returnedBy = None,
                    returnNotes = None,
                    rejectedBy = None,
                    rejectionReason = None,
                    approvalNotes = None,
                    returnedQuantity = None,
                    returnDate = None \<rparr>
          in (case handover_insert h s of
               None \<Rightarrow> (Inl ServerError, s)
             | Some s1 \<Rightarrow> (Inr h, s1))))"

subsection \<open>POST /api/handovers/:id/return: return by the employee\<close>

text \<open>
  \<open>handover.returnedQuantity || 0\<close>: a missing value, 0 and the empty text
  give 0.
\<close>

definition or_zero :: "body_value option \<Rightarrow> body_value" where
  "or_zero v =
     (case v of
        None \<Rightarrow> Num 0
      | Some (Num n) \<Rightarrow> Num n
      | Some (Str t) \<Rightarrow> if t = [] then Num 0 else Str t)"

text \<open>
  The route computes with the raw \<open>returnQuantity\<close>: the guard compares it
  with the borrowed quantity, \<open>returnedQuantity\<close> and the new stock are built
  with \<open>+\<close>. The stock is a \<open>Number\<close> path: the assignment casts, and a value
  that does not cast makes \<open>product.save()\<close> throw after the handover has
  been saved.
\<close>

definition returnHandover ::
  "user \<Rightarrow> oid \<Rightarrow> body_value \<Rightarrow> string option \<Rightarrow> date \<Rightarrow> store \<Rightarrow> handover response" where
  "returnHandover caller i returnQuantity returnNotes_in now s =
     (if \<not> checkPermission PcanReturnHandover caller then (Inl AccessDenied, s)
      else if \<not> (isInt_min 1 returnQuantity \<and> maxlength 500 returnNotes_in)
        then (Inl ValidationError, s)
      else case findHandover s i of
        None \<Rightarrow> (Inl NotFound, s)
      | Some h \<Rightarrow>
          (if employee h \<noteq> uid caller then (Inl NotOwner, s)
           else if status h \<noteq> HandedOver then (Inl NotActive, s)
           else if js_gt returnQuantity (quantity h) then (Inl ReturnExceedsBorrowed, s)
           else
            (let total = js_plus (or_zero (returnedQuantity h)) returnQuantity;
                 h1 = h\<lparr> returnedQuantity := Some total,
                         returnedBy := Some (uid caller),
                         returnDate := Some now,
                         returnNotes := trim_opt returnNotes_in \<rparr>;
                 h2 = (if js_ge total (quantity h1) then h1\<lparr> status := Returned \<rparr> else h1);
                 s1 = handover_save h2 s
             in (case findProduct s1 (product h) of
                  None \<Rightarrow> (Inr h2, s1)
                | Some pr \<Rightarrow>
                    (case cast_number (js_plus (Num (stock_quantity pr)) returnQuantity) of
                       None \<Rightarrow> (Inl ServerError, s1)
                     | Some n \<Rightarrow>
                         (case product_save now pr (pr\<lparr> stock_quantity := n \<rparr>) s1 of
                            None \<Rightarrow> (Inl ServerError, s1)
                          | Some s2 \<Rightarrow> (Inr h2, s2)))))))"

subsection \<open>POST /api/handovers/:id/approve\<close>

text \<open>
  The approval appends a line to the notes. The save validates the paths the
  route has set; of these only \<open>notes\<close> can fail, its \<open>maxlength\<close> being 500
  (the approval notes were bounded by the route's own validator, and trimming
  does not lengthen). A failed validation throws before anything is written.
\<close>

definition approved_notes :: "handover \<Rightarrow> user \<Rightarrow> string option \<Rightarrow> string" where
  "approved_notes h caller approvalNotes_in =
     trim (interpolate (notesH h) @ [CHR 0x0A] @ ''Approved by '' @ firstName caller
           @ '' '' @ lastName caller @ '': '' @ or_default approvalNotes_in ''No notes'')"

definition approveHandover ::
  "user \<Rightarrow> oid \<Rightarrow> string option \<Rightarrow> date \<Rightarrow> store \<Rightarrow> handover response" where
  "approveHandover caller i approvalNotes_in now s =
     (if \<not> checkPermission PcanManageProducts caller then (Inl AccessDenied, s)
      else if \<not> maxlength 500 approvalNotes_in then (Inl ValidationError, s)
      else case findHandover s i of
        None \<Rightarrow> (Inl NotFound, s)
      | Some h \<Rightarrow>
          (if status h \<noteq> Pending then (Inl NotPending, s)
           else (case findProduct s (product h) of
            None \<Rightarrow> (Inl ServerError, s)
          | Some pr \<Rightarrow>
             (if stock_quantity pr < quantity h then (Inl InsufficientStock, s)
              else
               (let h' = h\<lparr> status := HandedOver,
                            handedOverBy := Some (uid caller),
                            handOverDate := now,
                            approvalNotes := trim_opt approvalNotes_in,
                            notesH := Some (approved_notes h caller approvalNotes_in) \<rparr>
                in if \<not> maxlength 500 (notesH h') then (Inl ServerError, s)
                   else
                    (let s1 = handover_save h' s
                     in (case product_save now pr
                               (pr\<lparr> stock_quantity := stock_quantity pr - quantity h \<rparr>) s1 of
                          None \<Rightarrow> (Inl ServerError, s1)
                        | Some s2 \<Rightarrow> (Inr h', s2))))))))"

subsection \<open>POST /api/handovers/:id/reject\<close>

definition rejected_notes :: "handover \<Rightarrow> user \<Rightarrow> string \<Rightarrow> string" where
  "rejected_notes h caller rejectionReason_in =
     trim (interpolate (notesH h) @ [CHR 0x0A] @ ''Rejected by '' @ firstName caller
           @ '' '' @ lastName caller @ '': '' @ rejectionReason_in)"

definition rejectHandover ::
  "user \<Rightarrow> oid \<Rightarrow> string \<Rightarrow> store \<Rightarrow> handover response" where
  "rejectHandover caller i rejectionReason_in s =
     (if \<not> checkPermission PcanManageProducts caller then (Inl AccessDenied, s)
      else if rejectionReason_in = [] \<or> 500 < length rejectionReason_in
        then (Inl ValidationError, s)
      else case findHandover s i of
        None \<Rightarrow> (Inl NotFound, s)
      | Some h \<Rightarrow>
          (if status h \<noteq> Pending then (Inl NotPending, s)
           else
            let h' = h\<lparr> status := Rejected,
                        rejectedBy := Some (uid caller),
                        rejectionReason := Some (trim rejectionReason_in),
                        notesH := Some (rejected_notes h caller rejectionReason_in) \<rparr>
            in if \<not> maxlength 500 (notesH h') then (Inl ServerError, s)
               else (Inr h', handover_save h' s)))"

subsection \<open>DELETE /api/handovers/:id\<close>

definition deleteHandover :: "user \<Rightarrow> oid \<Rightarrow> date \<Rightarrow> store \<Rightarrow> unit response" where
  "deleteHandover caller i now s =
     (if \<not> checkPermission PcanManageProducts caller then (Inl AccessDenied, s)
      else case findHandover s i of
        None \<Rightarrow> (Inl NotFound, s)
      | Some h \<Rightarrow>
          (case (if status h = HandedOver then findProduct s (product h) else None) of
             Some pr \<Rightarrow>
               (case product_save now pr
                       (pr\<lparr> stock_quantity := stock_quantity pr + quantity h \<rparr>) s of
                  None \<Rightarrow> (Inl ServerError, s)
                | Some s1 \<Rightarrow> (Inr (), handover_delete i s1))
           | None \<Rightarrow> (Inr (), handover_delete i s)))"

section \<open>The product routes (routes/products.js)\<close>

subsection \<open>POST /api/products\<close>

text \<open>
  Of the multipart body the model carries the name, the stock quantity and the
  number of uploaded image files; the price fields and the primary image index
  pass through the same checks and do not touch the stock. The save runs the schema
  validators, then the \<open>pre('save')\<close> hook, which draws the next sequence number
  from the counter (\<open>$inc\<close> with \<open>upsert\<close>), then the insert, which the unique
  indexes on \<open>_id\<close> and \<open>productId\<close> can refuse with error code 11000.
\<close>

record product_body =
  name_in :: string
  stockQuantity_in :: int
  files_in :: nat

definition next_seq :: "nat option \<Rightarrow> nat" where
  "next_seq c = (case c of None \<Rightarrow> 1 | Some n \<Rightarrow> n + 1)"

definition createProduct ::
  "user \<Rightarrow> product_body \<Rightarrow> date \<Rightarrow> oid \<Rightarrow> store \<Rightarrow> product response" where
  "createProduct caller body now newId s =
     (if \<not> checkPermission PcanAddProducts caller then (Inl AccessDenied, s)
      else if length (trim (name_in body)) < 2 \<or> 100 < length (trim (name_in body))
              \<or> stockQuantity_in body < 0 then (Inl ValidationError, s)
      else if files_in body = 0 then (Inl ImageRequired, s)
      else
        let s1 = s\<lparr> counter := Some (next_seq (counter s)) \<rparr>;
            p = \<lparr> pid = newId,
                  productId = Some (next_seq (counter s)),
                  name = trim (name_in body),
                  stock_quantity = stockQuantity_in body,
                  lastRestocked = now,
                  createdAt = now \<rparr>
        in if findProduct s newId \<noteq> None
              \<or> (\<exists>q \<in> set (products s). productId q = productId p)
           then (Inl DuplicateProductId, s1)
           else (Inr p, s1\<lparr> products := products s @ [p] \<rparr>))"

subsection \<open>PUT /api/products/:id/stock\<close>

definition updateStock ::
  "user \<Rightarrow> oid \<Rightarrow> string \<Rightarrow> int \<Rightarrow> date \<Rightarrow> store \<Rightarrow> product response" where
  "updateStock caller i operation quantityChange now s =
     (if \<not> checkPermission PcanManageProducts caller then (Inl AccessDenied, s)
      else if operation \<noteq> ''add'' \<and> operation \<noteq> ''subtract'' then (Inl InvalidOperation, s)
      else if quantityChange \<le> 0 then (Inl ValidationError, s)
      else case findProduct s i of
        None \<Rightarrow> (Inl NotFound, s)
      | Some pr \<Rightarrow>
         (if operation = ''add'' then
            (let new = pr\<lparr> stock_quantity := stock_quantity pr + quantityChange \<rparr>
             in (case product_save now pr new s of
                  None \<Rightarrow> (Inl ServerError, s)
                | Some s1 \<Rightarrow> (Inr new, s1)))
          else
            (let newQuantity = stock_quantity pr - quantityChange
             in if newQuantity < 0 then (Inl InsufficientStock, s)
                else
                 (let new = pr\<lparr> stock_quantity := newQuantity \<rparr>
                  in (case product_save now pr new s of
                       None \<Rightarrow> (Inl ServerError, s)
                     | Some s1 \<Rightarrow> (Inr new, s1))))))"

subsection \<open>DELETE /api/products/:id and resetProductCounter\<close>

text \<open>
  \<open>findByIdAndUpdate(product._id, { productId: newId })\<close>: the unique index on
  \<open>productId\<close> refuses a number that another document holds (\<open>None\<close>).
\<close>

definition setProductId :: "oid \<Rightarrow> nat \<Rightarrow> product list \<Rightarrow> product list option" where
  "setProductId i n coll =
     (if \<exists>q \<in> set coll. pid q \<noteq> i \<and> productId q = Some n then None
      else Some (map (\<lambda>q. if pid q = i then q\<lparr> productId := Some n \<rparr> else q) coll))"

text \<open>
  The loop of \<open>resetProductCounter\<close> from index \<open>i\<close> on: \<open>ps\<close> is what is left
  of the snapshot read at the start, \<open>coll\<close> the collection as written so far.
  The flag tells whether the loop ran to its end.
\<close>

fun renumber :: "nat \<Rightarrow> product list \<Rightarrow> product list \<Rightarrow> bool \<times> product list" where
  "renumber i [] coll = (True, coll)"
| "renumber i (p # ps) coll =
     (if productId p \<noteq> Some (i + 1) then
        (case setProductId (pid p) (i + 1) coll of
           None \<Rightarrow> (False, coll)
         | Some coll' \<Rightarrow> renumber (i + 1) ps coll')
      else renumber (i + 1) ps coll)"

text \<open>
  \<open>Product.find().sort({ createdAt: 1 })\<close> is a stable sort of the collection
  by creation time.
\<close>

definition resetProductCounter :: "store \<Rightarrow> bool \<times> store" where
  "resetProductCounter s =
     (let snapshot = sort_key createdAt (products s)
      in case renumber 0 snapshot (products s) of
           (False, coll) \<Rightarrow> (False, s\<lparr> products := coll \<rparr>)
         | (True, coll) \<Rightarrow> (True, s\<lparr> products := coll, counter := Some (length snapshot) \<rparr>))"

definition deleteProductRoute :: "user \<Rightarrow> oid \<Rightarrow> store \<Rightarrow> product response" where
  "deleteProductRoute caller i s =
     (if \<not> checkPermission PcanDeleteProducts caller then (Inl AccessDenied, s)
      else case findProduct s i of
        None \<Rightarrow> (Inl NotFound, s)
      | Some pr \<Rightarrow>
          (case resetProductCounter (s\<lparr> products := filter (\<lambda>q. pid q \<noteq> i) (products s) \<rparr>) of
             (False, s1) \<Rightarrow> (Inl ServerError, s1)
           | (True, s1) \<Rightarrow> (Inr pr, s1)))"

subsection \<open>ProductController.deleteProduct (controllers/productController.js)\<close>

definition deleteProduct :: "oid \<Rightarrow> store \<Rightarrow> unit response" where
  "deleteProduct i s =
     (case findProduct s i of
        None \<Rightarrow> (Inl NotFound, s)
      | Some pr \<Rightarrow> (Inr (), s\<lparr> products := filter (\<lambda>q. pid q \<noteq> i) (products s) \<rparr>))"

text \<open>
  What a compacted collection looks like: read in creation order, the sequence
  numbers are 1, 2, ..., N, and the counter stands at N.
\<close>

definition dense :: "store \<Rightarrow> bool" where
  "dense s =
     (map productId (sort_key createdAt (products s)) = map Some [1 ..< length (products s) + 1]
      \<and> counter s = Some (length (products s)))"

text \<open>
  A product without its sequence number: what renumbering must leave alone.
\<close>

definition erase_number :: "product \<Rightarrow> product" where
  "erase_number q = q\<lparr> productId := None \<rparr>"

text \<open>
  In a list read in creation order, no product holds a number that the
  renumbering loop assigns to an earlier position. It is so whenever the
  numbers grow with the creation time.
\<close>

definition no_clash :: "product list \<Rightarrow> bool" where
  "no_clash xs = (\<forall>j < length xs. \<forall>k < j. productId (xs ! j) \<noteq> Some (k + 1))"

section \<open>Operation sequences\<close>

datatype operation =
    OpCreateProduct user product_body date oid
  | OpUpdateStock user oid string int date
  | OpDirect user direct_body date oid
  | OpRequest user oid int string date oid
  | OpApprove user oid "string option" date
  | OpReject user oid string
  | OpReturn user oid body_value "string option" date
  | OpManagerReturn user oid "string option" date
  | OpDelete user oid date

fun step :: "operation \<Rightarrow> store \<Rightarrow> store" where
  "step (OpCreateProduct caller body now newId) s = snd (createProduct caller body now newId s)"
| "step (OpUpdateStock caller i operation q now) s = snd (updateStock caller i operation q now s)"
| "step (OpDirect caller body now newId) s = snd (createDirectHandover caller body now newId s)"
| "step (OpRequest caller p q reason now newId) s =
     snd (createHandoverRequest caller p q reason now newId s)"
| "step (OpApprove caller i approvalNotes_in now) s = snd (approveHandover caller i approvalNotes_in now s)"
| "step (OpReject caller i reason) s = snd (rejectHandover caller i reason s)"
| "step (OpReturn caller i q returnNotes_in now) s = snd (returnHandover caller i q returnNotes_in now s)"
| "step (OpManagerReturn caller i returnNotes_in now) s =
     snd (markReturnedByManager caller i returnNotes_in now s)"
| "step (OpDelete caller i now) s = snd (deleteHandover caller i now s)"

fun run :: "operation list \<Rightarrow> store \<Rightarrow> store" where
  "run [] s = s"
| "run (op # ops) s = run ops (step op s)"

text \<open>
  The stock ledger of one product: its on-hand quantity, the quantity
  committed to it (the sum of \<open>quantity\<close> over the handovers of the product that
  are in status handed_over), and their sum, which conservation keeps constant
  between two settings of the stock from outside.
\<close>

definition stock_of :: "store \<Rightarrow> oid \<Rightarrow> int" where
  "stock_of s p = (case findProduct s p of None \<Rightarrow> 0 | Some pr \<Rightarrow> stock_quantity pr)"

definition committed :: "store \<Rightarrow> oid \<Rightarrow> int" where
  "committed s p =
     sum_list (map quantity (filter (\<lambda>h. product h = p \<and> status h = HandedOver) (handovers s)))"

definition ledger :: "store \<Rightarrow> oid \<Rightarrow> int" where
  "ledger s p = stock_of s p + committed s p"

section \<open>Invariants of operation sequences\<close>

text \<open>No product has a negative on-hand quantity.\<close>

definition nonneg :: "store \<Rightarrow> bool" where
  "nonneg s = (\<forall>p \<in> set (products s). 0 \<le> stock_quantity p)"

section \<open>Sample data\<close>

text \<open>
  The scenario of the specification's section 8: one product with ten pieces on
  hand, a manager and an employee, no handover yet. The users are as a save
  leaves them.
\<close>

definition demo_manager :: user where
  "demo_manager = pre_save \<lparr> uid = 1, firstName = ''Mona'', lastName = ''Raza'',
      email = ''mona@iwiz.com'', role = Manager, isActive = True,
      permissions = spec_flags Employee \<rparr>"

definition demo_employee :: user where
  "demo_employee = pre_save \<lparr> uid = 2, firstName = ''Omar'', lastName = ''Ali'',
      email = ''omar@iwiz.com'', role = Employee, isActive = True,
      permissions = spec_flags Employee \<rparr>"

definition demo_store :: store where
  "demo_store =
     \<lparr> users = [demo_manager, demo_employee],
       products = [\<lparr> pid = 10, productId = Some 1, name = ''Drill'', stock_quantity = 10,
                     lastRestocked = 0, createdAt = 0 \<rparr>],
       handovers = [],
       counter = Some 1 \<rparr>"

text \<open>A direct handover of \<open>q\<close> pieces of the product to the employee.\<close>

definition demo_issue :: "int \<Rightarrow> oid option \<Rightarrow> direct_body" where
  "demo_issue q by =
     \<lparr> productId_in = 10, employeeId_in = 2, quantity_in = q, purpose_in = None,
       notes_in = None, expectedReturnDate_in = None, handedOverBy_in = by \<rparr>"

text \<open>The pending request the employee files for five pieces.\<close>

definition demo_request :: handover where
  "demo_request =
     \<lparr> hid = 100, product = 10, employee = 2, handedOverBy = None, quantity = 5,
       purpose = Some ''site work'', notesH = Some ''Requested by employee: site work'',
       status = Pending, handOverDate = 5, expectedReturnDate = None,
       actualReturnDate = None, returnedBy = None, returnNotes = None, rejectedBy = None,
       rejectionReason = None, approvalNotes = None, returnedQuantity = None,
       returnDate = None \<rparr>"

text \<open>The store after the employee has requested five pieces (handover 100).\<close>

definition demo_requested :: store where
  "demo_requested = step (OpRequest demo_employee 10 5 ''site work'' 5 100) demo_store"

text \<open>The store after the manager has handed out eight pieces (handover 100).\<close>

definition demo_issued :: store where
  "demo_issued = step (OpDirect demo_manager (demo_issue 8 None) 5 100) demo_store"

text \<open>An admin, and a catalogue of three products numbered in creation order.\<close>

definition demo_admin :: user where
  "demo_admin = pre_save \<lparr> uid = 3, firstName = ''Sara'', lastName = ''Noor'',
      email = ''sara@iwiz.com'', role = Admin, isActive = True,
      permissions = spec_flags Employee \<rparr>"

definition demo_catalog :: store where
  "demo_catalog =
     \<lparr> users = [demo_admin],
       products = [\<lparr> pid = 10, productId = Some 1, name = ''Drill'', stock_quantity = 10,
                     lastRestocked = 1, createdAt = 1 \<rparr>,
                   \<lparr> pid = 11, productId = Some 2, name = ''Saw'', stock_quantity = 4,
                     lastRestocked = 2, createdAt = 2 \<rparr>,
                   \<lparr> pid = 12, productId = Some 3, name = ''Level'', stock_quantity = 7,
                     lastRestocked = 3, createdAt = 3 \<rparr>],
       handovers = [],
       counter = Some 3 \<rparr>"

text \<open>
  A sequence with stock operations, refused operations, a partial return and a
  manager return of a request that was never approved.
\<close>

definition demo_ops2 :: "operation list" where
  "demo_ops2 =
     [OpCreateProduct demo_manager \<lparr> name_in = ''Saw'', stockQuantity_in = 3, files_in = 1 \<rparr> 4 11,
      OpUpdateStock demo_manager 11 ''subtract'' 5 5,
      OpUpdateStock demo_manager 11 ''subtract'' 3 6,
      OpUpdateStock demo_manager 10 ''add'' 2 7,
      OpDirect demo_manager (demo_issue 12 None) 8 100,
      OpDirect demo_manager (demo_issue 13 None) 9 100,
      OpRequest demo_employee 10 4 ''site work'' 10 101,
      OpApprove demo_manager 101 None 11,
      OpReturn demo_employee 100 (Num 3) None 12,
      OpManagerReturn demo_manager 101 None 13,
      OpDelete demo_manager 100 14]"

section \<open>Properties of the store primitives\<close>

subsection \<open>Text and list search\<close>

lemma length_trim: "length (trim t) \<le> length t"
proof -
  have "length (dropWhile is_space (rev (dropWhile is_space t))) \<le> length (rev (dropWhile is_space t))"
    by (rule length_dropWhile_le)
  also have "\<dots> \<le> length t"
    by (simp add: length_dropWhile_le)
  finally show ?thesis by (simp add: trim_def)
qed

lemma maxlength_trim_opt: "maxlength n v \<Longrightarrow> maxlength n (trim_opt v)"
  using length_trim by (cases v) (auto simp: maxlength_def trim_opt_def intro: order_trans)

lemma find_map_replace:
  "find (\<lambda>x. f x = i) xs = Some a \<Longrightarrow> f b = i \<Longrightarrow>
   find (\<lambda>x. f x = i) (map (\<lambda>x. if f x = i then b else x) xs) = Some b"
  by (induction xs) (auto split: if_splits)

lemma find_map_replace_other:
  "j \<noteq> i \<Longrightarrow> f b = i \<Longrightarrow>
   find (\<lambda>x. f x = j) (map (\<lambda>x. if f x = i then b else x) xs) = find (\<lambda>x. f x = j) xs"
  by (induction xs) auto

lemma find_filter_removed: "find (\<lambda>x. f x = i) (filter (\<lambda>x. f x \<noteq> i) xs) = None"
  by (induction xs) auto

lemma find_filter_other:
  "j \<noteq> i \<Longrightarrow> find (\<lambda>x. f x = j) (filter (\<lambda>x. f x \<noteq> i) xs) = find (\<lambda>x. f x = j) xs"
  by (induction xs) auto

lemma find_Some_key: "find (\<lambda>x. f x = i) xs = Some a \<Longrightarrow> f a = i \<and> a \<in> set xs"
  by (induction xs) (auto split: if_splits)

lemma find_None_key: "find (\<lambda>x. f x = i) xs = None \<Longrightarrow> i \<notin> f ` set xs"
  by (induction xs) (auto split: if_splits)

lemma find_append_new:
  "find (\<lambda>x. f x = i) xs = None \<Longrightarrow> f b = i \<Longrightarrow> find (\<lambda>x. f x = i) (xs @ [b]) = Some b"
  by (induction xs) (auto split: if_splits)

subsection \<open>Saves, inserts and deletes\<close>

lemma findHandover_hid: "findHandover s i = Some h \<Longrightarrow> hid h = i"
  unfolding findHandover_def by (drule find_Some_key) simp

lemma findProduct_pid: "findProduct s i = Some p \<Longrightarrow> pid p = i"
  unfolding findProduct_def by (drule find_Some_key) simp

lemma handover_save_other_fields [simp]:
  "products (handover_save h s) = products s"
  "users (handover_save h s) = users s"
  "counter (handover_save h s) = counter s"
  by (simp_all add: handover_save_def)

lemma handover_delete_other_fields [simp]:
  "products (handover_delete i s) = products s"
  "users (handover_delete i s) = users s"
  "counter (handover_delete i s) = counter s"
  by (simp_all add: handover_delete_def)

lemma findProduct_handover_save [simp]: "findProduct (handover_save h s) = findProduct s"
  by (rule ext) (simp add: findProduct_def)

lemma findProduct_handover_delete [simp]: "findProduct (handover_delete i s) = findProduct s"
  by (rule ext) (simp add: findProduct_def)

lemma stock_of_handover_save [simp]: "stock_of (handover_save h s) = stock_of s"
  by (rule ext) (simp add: stock_of_def)

lemma stock_of_handover_delete [simp]: "stock_of (handover_delete i s) = stock_of s"
  by (rule ext) (simp add: stock_of_def)

lemma handover_insert_other_fields:
  "handover_insert h s = Some s' \<Longrightarrow>
   products s' = products s \<and> users s' = users s \<and> counter s' = counter s
   \<and> handovers s' = handovers s @ [schema_paths h] \<and> findHandover s (hid h) = None
   \<and> handover_valid h"
  by (auto simp: handover_insert_def split: if_splits)

lemma findProduct_handover_insert:
  "handover_insert h s = Some s' \<Longrightarrow> findProduct s' = findProduct s"
  by (rule ext) (simp add: findProduct_def handover_insert_other_fields)

lemma findHandover_handover_save_same:
  "findHandover s i = Some h \<Longrightarrow> hid h' = i \<Longrightarrow>
   findHandover (handover_save h' s) i = Some (schema_paths h')"
proof -
  assume a: "findHandover s i = Some h" and b: "hid h' = i"
  have "find (\<lambda>x. hid x = i) (map (\<lambda>x. if hid x = i then schema_paths h' else x) (handovers s))
        = Some (schema_paths h')"
    using a b by (intro find_map_replace[where a = h]) (simp_all add: findHandover_def schema_paths_def)
  then show ?thesis using b by (simp add: findHandover_def handover_save_def)
qed

lemma findHandover_handover_save_other:
  "j \<noteq> hid h' \<Longrightarrow> findHandover (handover_save h' s) j = findHandover s j"
proof -
  assume a: "j \<noteq> hid h'"
  have "find (\<lambda>x. hid x = j) (map (\<lambda>x. if hid x = hid h' then schema_paths h' else x) (handovers s))
        = find (\<lambda>x. hid x = j) (handovers s)"
    using a by (intro find_map_replace_other) (simp_all add: schema_paths_def)
  then show ?thesis by (simp add: findHandover_def handover_save_def)
qed

lemma findHandover_handover_delete_same [simp]: "findHandover (handover_delete i s) i = None"
  by (simp add: findHandover_def handover_delete_def find_filter_removed)

lemma findHandover_handover_delete_other:
  "j \<noteq> i \<Longrightarrow> findHandover (handover_delete i s) j = findHandover s j"
  by (simp add: findHandover_def handover_delete_def find_filter_other)

lemma product_save_other_fields:
  "product_save now old new s = Some s' \<Longrightarrow>
   handovers s' = handovers s \<and> users s' = users s \<and> counter s' = counter s"
  by (auto simp: product_save_def split: if_splits)

lemma findHandover_product_save:
  "product_save now old new s = Some s' \<Longrightarrow> findHandover s' = findHandover s"
  by (rule ext) (simp add: findHandover_def product_save_other_fields)

lemma product_save_Some_iff:
  "(\<exists>s'. product_save now old new s = Some s') \<longleftrightarrow>
   (stock_quantity new = stock_quantity old \<or> 0 \<le> stock_quantity new)"
  by (auto simp: product_save_def)

lemma findProduct_product_save_same:
  assumes "product_save now old new s = Some s'" "findProduct s i = Some old" "pid new = pid old"
  shows "\<exists>p. findProduct s' i = Some p \<and> stock_quantity p = stock_quantity new \<and> pid p = i"
proof (cases "stock_quantity new = stock_quantity old")
  case True
  then show ?thesis using assms by (auto simp: product_save_def findProduct_pid)
next
  case False
  have i: "pid old = i" using assms(2) by (rule findProduct_pid)
  have "find (\<lambda>x. pid x = i) (map (\<lambda>x. if pid x = i then new\<lparr>lastRestocked := now\<rparr> else x) (products s))
        = Some (new\<lparr>lastRestocked := now\<rparr>)"
    using assms i by (intro find_map_replace[where a = old]) (simp_all add: findProduct_def)
  then show ?thesis using False assms i
    by (auto simp: product_save_def findProduct_def split: if_splits)
qed

lemma findProduct_product_save_other:
  assumes "product_save now old new s = Some s'" "j \<noteq> pid old" "pid new = pid old"
  shows "findProduct s' j = findProduct s j"
proof (cases "stock_quantity new = stock_quantity old")
  case True
  then show ?thesis using assms by (auto simp: product_save_def)
next
  case False
  have "find (\<lambda>x. pid x = j) (map (\<lambda>x. if pid x = pid old then new\<lparr>lastRestocked := now\<rparr> else x) (products s))
        = find (\<lambda>x. pid x = j) (products s)"
    using assms by (intro find_map_replace_other) simp_all
  then show ?thesis using False assms
    by (auto simp: product_save_def findProduct_def split: if_splits)
qed

lemma stock_of_product_save:
  assumes "product_save now old new s = Some s'" "findProduct s i = Some old" "pid new = pid old"
  shows "stock_of s' j = (if j = i then stock_quantity new else stock_of s j)"
proof (cases "j = i")
  case True
  then show ?thesis using findProduct_product_save_same[OF assms] by (auto simp: stock_of_def)
next
  case False
  have "pid old = i" using assms(2) by (rule findProduct_pid)
  with False have "findProduct s' j = findProduct s j"
    using findProduct_product_save_other[OF assms(1) _ assms(3), of j] by simp
  with False show ?thesis by (simp add: stock_of_def)
qed

lemmas demo_defs = demo_manager_def demo_employee_def demo_admin_def demo_store_def
  demo_issue_def demo_request_def demo_requested_def demo_issued_def demo_catalog_def
  pre_save_def FAILSAFE_EMAIL_def

lemmas store_defs = findUser_def findProduct_def findHandover_def schema_paths_def
  handover_valid_def handover_insert_def handover_save_def handover_delete_def
  product_save_def checkPermission_def maxlength_def trim_opt_def issuer_def or_zero_def
  stock_of_def committed_def ledger_def Let_def

lemma demo_requested_eval: "demo_requested = demo_store\<lparr> handovers := [demo_request] \<rparr>"
  by (simp add: demo_defs store_defs createHandoverRequest_def trim_def is_space_def)

section \<open>User saves and the permission vector\<close>

text \<open>
  C9. Every save leaves the user with exactly the capability vector of the
  role it is saved with: the flags are recomputed from the role alone, so the
  flags held before the save have no influence, and a role change leaves no
  flag of the old role behind. The failsafe account always ends a save as an
  active admin with the admin vector.
\<close>

theorem pre_save_permissions_from_role:
  "(email u \<noteq> FAILSAFE_EMAIL \<longrightarrow>
      role (pre_save u) = role u \<and>
      permissions (pre_save u) = spec_flags (role u)) \<and>
   (email u = FAILSAFE_EMAIL \<longrightarrow>
      role (pre_save u) = Admin \<and> isActive (pre_save u) \<and>
      permissions (pre_save u) = spec_flags Admin) \<and>
   permissions (pre_save (u\<lparr>permissions := old\<rparr>)) = permissions (pre_save u) \<and>
   permissions (pre_save (u\<lparr>role := r\<rparr>)) =
     spec_flags (if email u = FAILSAFE_EMAIL then Admin else r)"
  by (cases "role u"; cases r) (simp_all add: pre_save_def spec_flags_def)

theorem pre_save_permissions_from_role_witness:
  "permissions (pre_save \<lparr> uid = 7, firstName = ''Ada'', lastName = ''Khan'',
       email = ''ada@iwiz.com'', role = Employee, isActive = True,
       permissions = spec_flags Admin \<rparr>) = spec_flags Employee
   \<and> permissions (pre_save \<lparr> uid = 1, firstName = ''I'', lastName = ''N'',
       email = ''irtazamadadnaqvi@iwiz.com'', role = Employee, isActive = False,
       permissions = spec_flags Employee \<rparr>) = spec_flags Admin"
  using pre_save_permissions_from_role
          [of "\<lparr> uid = 7, firstName = ''Ada'', lastName = ''Khan'',
                 email = ''ada@iwiz.com'', role = Employee, isActive = True,
                 permissions = spec_flags Admin \<rparr>"]
        pre_save_permissions_from_role
          [of "\<lparr> uid = 1, firstName = ''I'', lastName = ''N'',
                 email = ''irtazamadadnaqvi@iwiz.com'', role = Employee, isActive = False,
                 permissions = spec_flags Employee \<rparr>"]
  by (simp add: FAILSAFE_EMAIL_def)

section \<open>Direct handover: who is recorded as issuer\<close>

lemma createDirectHandover_Inr:
  assumes "fst (createDirectHandover caller body now newId s) = Inr h"
  shows "handedOverBy h = Some (issuer (handedOverBy_in body) caller)
         \<and> hid h = newId \<and> status h = HandedOver \<and> quantity h = quantity_in body
         \<and> product h = productId_in body \<and> schema_paths h = h
         \<and> findHandover (snd (createDirectHandover caller body now newId s)) newId = Some h"
proof -
  from assms obtain pr emp s1 s2 where
    pr: "findProduct s (productId_in body) = Some pr" and
    ins: "handover_insert h s = Some s1" and
    sv: "product_save now pr (pr\<lparr>stock_quantity := stock_quantity pr - quantity_in body\<rparr>) s1 = Some s2" and
    res: "snd (createDirectHandover caller body now newId s) = s2" and
    flds: "handedOverBy h = Some (issuer (handedOverBy_in body) caller)" "hid h = newId"
          "status h = HandedOver" "quantity h = quantity_in body" "product h = productId_in body"
          "returnedQuantity h = None" "returnDate h = None"
    by (auto simp: createDirectHandover_def Let_def split: if_splits option.splits)
  have sp: "schema_paths h = h" using flds by (simp add: schema_paths_def)
  from ins have "handovers s1 = handovers s @ [schema_paths h]" "findHandover s (hid h) = None"
    by (simp_all add: handover_insert_other_fields)
  then have "findHandover s1 newId = Some h"
    using flds(2) sp by (simp add: findHandover_def find_append_new)
  then have "findHandover s2 newId = Some h"
    using findHandover_product_save[OF sv] by simp
  with flds sp res show ?thesis by simp
qed

text \<open>
  C10. A direct handover records as issuer (\<open>handedOverBy\<close>) the value of the
  request body's field of that name when the field is there, and the caller's
  id only when it is not; so there is a request after which the stored issuer
  is not the caller.
\<close>

theorem direct_handover_issuer:
  "(fst (createDirectHandover caller body now newId s) = Inr h \<longrightarrow>
      handedOverBy h = Some (case handedOverBy_in body of Some x \<Rightarrow> x | None \<Rightarrow> uid caller)
      \<and> findHandover (snd (createDirectHandover caller body now newId s)) newId = Some h)
   \<and> (\<exists>caller' body' now' newId' s' h'.
        fst (createDirectHandover caller' body' now' newId' s') = Inr h'
        \<and> handedOverBy h' \<noteq> Some (uid caller'))"
proof (intro conjI impI)
  assume a: "fst (createDirectHandover caller body now newId s) = Inr h"
  show "handedOverBy h = Some (case handedOverBy_in body of Some x \<Rightarrow> x | None \<Rightarrow> uid caller)"
    using createDirectHandover_Inr[OF a] by (simp add: issuer_def)
  show "findHandover (snd (createDirectHandover caller body now newId s)) newId = Some h"
    using createDirectHandover_Inr[OF a] by simp
next
  let ?h = "\<lparr> hid = 100, product = 10, employee = 2, handedOverBy = Some 2, quantity = 4,
       purpose = None, notesH = None, status = HandedOver, handOverDate = 5,
       expectedReturnDate = None, actualReturnDate = None, returnedBy = None,
       returnNotes = None, rejectedBy = None, rejectionReason = None, approvalNotes = None,
       returnedQuantity = None, returnDate = None \<rparr>"
  have "fst (createDirectHandover demo_manager (demo_issue 4 (Some 2)) 5 100 demo_store) = Inr ?h"
    by (simp add: createDirectHandover_def demo_defs store_defs)
  moreover have "handedOverBy ?h \<noteq> Some (uid demo_manager)"
    by (simp add: demo_defs)
  ultimately show "\<exists>caller' body' now' newId' s' h'.
        fst (createDirectHandover caller' body' now' newId' s') = Inr h'
        \<and> handedOverBy h' \<noteq> Some (uid caller')"
    by blast
qed

theorem direct_handover_issuer_witness:
  "fst (createDirectHandover demo_manager (demo_issue 4 (Some 2)) 5 100 demo_store)
     = Inr (demo_request\<lparr> handedOverBy := Some 2, quantity := 4, purpose := None,
                          notesH := None, status := HandedOver \<rparr>)
   \<and> findHandover (snd (createDirectHandover demo_manager (demo_issue 4 (Some 2)) 5 100 demo_store)) 100
     = Some (demo_request\<lparr> handedOverBy := Some 2, quantity := 4, purpose := None,
                          notesH := None, status := HandedOver \<rparr>)
   \<and> uid demo_manager = 1"
proof -
  have hyp: "fst (createDirectHandover demo_manager (demo_issue 4 (Some 2)) 5 100 demo_store)
     = Inr (demo_request\<lparr> handedOverBy := Some 2, quantity := 4, purpose := None,
                          notesH := None, status := HandedOver \<rparr>)"
    by (simp add: createDirectHandover_def demo_defs store_defs)
  show ?thesis
    using hyp direct_handover_issuer[of demo_manager "demo_issue 4 (Some 2)" 5 100 demo_store
        "demo_request\<lparr> handedOverBy := Some 2, quantity := 4, purpose := None,
                          notesH := None, status := HandedOver \<rparr>"]
    by (simp add: demo_defs)
qed

section \<open>Deleting a handover\<close>

text \<open>
  C7. Deleting a handover in status handed_over adds the handover's quantity
  back to the product's stock and then removes the record; deleting one that is
  pending, rejected or returned removes the record and leaves every product as
  it was. (The stock and the quantity are in the ranges the schemas enforce.)
\<close>

theorem deleteHandover_restores_stock:
  assumes perm: "checkPermission PcanManageProducts caller"
      and h: "findHandover s i = Some h"
  shows "(status h = HandedOver \<and> findProduct s (product h) = Some pr
            \<and> 0 \<le> stock_quantity pr \<and> 1 \<le> quantity h \<longrightarrow>
            fst (deleteHandover caller i now s) = Inr ()
            \<and> findHandover (snd (deleteHandover caller i now s)) i = None
            \<and> stock_of (snd (deleteHandover caller i now s)) (product h)
                = stock_quantity pr + quantity h)
       \<and> (status h \<noteq> HandedOver \<longrightarrow>
            fst (deleteHandover caller i now s) = Inr ()
            \<and> findHandover (snd (deleteHandover caller i now s)) i = None
            \<and> products (snd (deleteHandover caller i now s)) = products s)"
proof (intro conjI impI)
  assume a: "status h = HandedOver \<and> findProduct s (product h) = Some pr
            \<and> 0 \<le> stock_quantity pr \<and> 1 \<le> quantity h"
  let ?new = "pr\<lparr>stock_quantity := stock_quantity pr + quantity h\<rparr>"
  from a obtain s1 where s1: "product_save now pr ?new s = Some s1"
    using product_save_Some_iff[of now pr ?new s] by auto
  have res: "deleteHandover caller i now s = (Inr (), handover_delete i s1)"
    using perm h a s1 by (simp add: deleteHandover_def)
  have "stock_of s1 (product h) = stock_quantity pr + quantity h"
    using stock_of_product_save[OF s1, of "product h" "product h"] a by simp
  with res show "fst (deleteHandover caller i now s) = Inr ()"
    and "findHandover (snd (deleteHandover caller i now s)) i = None"
    and "stock_of (snd (deleteHandover caller i now s)) (product h) = stock_quantity pr + quantity h"
    by simp_all
next
  assume a: "status h \<noteq> HandedOver"
  then have res: "deleteHandover caller i now s = (Inr (), handover_delete i s)"
    using perm h by (simp add: deleteHandover_def)
  then show "fst (deleteHandover caller i now s) = Inr ()"
    and "findHandover (snd (deleteHandover caller i now s)) i = None"
    and "products (snd (deleteHandover caller i now s)) = products s"
    by simp_all
qed

theorem deleteHandover_restores_stock_witness:
  "checkPermission PcanManageProducts demo_manager
   \<and> map status (handovers demo_issued) = [HandedOver]
   \<and> stock_of demo_issued 10 = 2
   \<and> fst (deleteHandover demo_manager 100 9 demo_issued) = Inr ()
   \<and> findHandover (snd (deleteHandover demo_manager 100 9 demo_issued)) 100 = None
   \<and> stock_of (snd (deleteHandover demo_manager 100 9 demo_issued)) 10 = 10
   \<and> products (snd (deleteHandover demo_manager 100 9 demo_requested)) = products demo_requested"
proof -
  let ?h = "demo_request\<lparr> handedOverBy := Some 1, quantity := 8, purpose := None,
                           notesH := None, status := HandedOver \<rparr>"
  let ?pr = "\<lparr> pid = 10, productId = Some 1, name = ''Drill'', stock_quantity = 2,
               lastRestocked = 5, createdAt = 0 \<rparr>"
  have perm: "checkPermission PcanManageProducts demo_manager"
    by (simp add: demo_defs store_defs)
  have h: "findHandover demo_issued 100 = Some ?h"
    by (simp add: createDirectHandover_def demo_defs store_defs)
  have pr: "findProduct demo_issued 10 = Some ?pr"
    by (simp add: createDirectHandover_def demo_defs store_defs)
  have h2: "findHandover demo_requested 100 = Some demo_request"
    by (simp add: demo_requested_eval findHandover_def demo_request_def)
  have st: "map status (handovers demo_issued) = [HandedOver]" "stock_of demo_issued 10 = 2"
    by (simp_all add: createDirectHandover_def demo_defs store_defs)
  show ?thesis
    using perm st
      deleteHandover_restores_stock[OF perm h, of ?pr 9]
      deleteHandover_restores_stock[OF perm h2, of ?pr 9] pr
    by (simp add: demo_request_def)
qed

section \<open>Approving or rejecting twice\<close>

lemma approveHandover_Inr:
  assumes "fst (approveHandover caller i a now s) = Inr h'"
  shows "\<exists>x. findHandover (snd (approveHandover caller i a now s)) i = Some x \<and> status x = HandedOver"
proof -
  from assms obtain h pr s2 where
    h: "findHandover s i = Some h" and
    sv: "product_save now pr (pr\<lparr>stock_quantity := stock_quantity pr - quantity h\<rparr>)
           (handover_save h' s) = Some s2" and
    res: "snd (approveHandover caller i a now s) = s2" and
    st: "status h' = HandedOver" "hid h' = hid h"
    by (auto simp: approveHandover_def Let_def split: if_splits option.splits)
  have "hid h' = i" using st(2) findHandover_hid[OF h] by simp
  then have "findHandover (handover_save h' s) i = Some (schema_paths h')"
    using h by (rule findHandover_handover_save_same[rotated])
  then have "findHandover s2 i = Some (schema_paths h')"
    using findHandover_product_save[OF sv] by simp
  with res st show ?thesis by (simp add: schema_paths_def)
qed

lemma rejectHandover_Inr:
  assumes "fst (rejectHandover caller i r s) = Inr h'"
  shows "\<exists>x. findHandover (snd (rejectHandover caller i r s)) i = Some x \<and> status x = Rejected"
proof -
  from assms obtain h where
    h: "findHandover s i = Some h" and
    res: "snd (rejectHandover caller i r s) = handover_save h' s" and
    st: "status h' = Rejected" "hid h' = hid h"
    by (auto simp: rejectHandover_def Let_def split: if_splits option.splits)
  have "hid h' = i" using st(2) findHandover_hid[OF h] by simp
  then have "findHandover (handover_save h' s) i = Some (schema_paths h')"
    using h by (rule findHandover_handover_save_same[rotated])
  with res st show ?thesis by (simp add: schema_paths_def)
qed

lemma approve_not_pending:
  assumes "findHandover s i = Some x" "status x \<noteq> Pending"
  shows "snd (approveHandover c i a t s) = s"
    and "\<exists>e. fst (approveHandover c i a t s) = Inl e"
    and "checkPermission PcanManageProducts c \<Longrightarrow> maxlength 500 a \<Longrightarrow>
         fst (approveHandover c i a t s) = Inl NotPending"
  using assms by (simp_all add: approveHandover_def)

lemma reject_not_pending:
  assumes "findHandover s i = Some x" "status x \<noteq> Pending"
  shows "snd (rejectHandover c i r s) = s"
    and "\<exists>e. fst (rejectHandover c i r s) = Inl e"
    and "checkPermission PcanManageProducts c \<Longrightarrow> r \<noteq> [] \<Longrightarrow> length r \<le> 500 \<Longrightarrow>
         fst (rejectHandover c i r s) = Inl NotPending"
  using assms by (auto simp: rejectHandover_def)

text \<open>
  C6. Once a first approve or reject call has succeeded on a handover, every
  further approve or reject call on the same id fails and leaves the store (the
  record and every stock) as it is; a call that passes the permission check and
  the body validation is answered with "Handover request is not pending", an
  InvalidTransition error.
\<close>

theorem second_decision_refused:
  assumes first: "fst (approveHandover c i a t s) = Inr h \<and> s' = snd (approveHandover c i a t s)
                \<or> fst (rejectHandover c i r s) = Inr h \<and> s' = snd (rejectHandover c i r s)"
  shows "snd (approveHandover c' i a' t' s') = s'
       \<and> snd (rejectHandover c' i r' s') = s'
       \<and> isl (fst (approveHandover c' i a' t' s'))
       \<and> isl (fst (rejectHandover c' i r' s'))
       \<and> (checkPermission PcanManageProducts c' \<and> maxlength 500 a' \<longrightarrow>
            fst (approveHandover c' i a' t' s') = Inl NotPending)
       \<and> (checkPermission PcanManageProducts c' \<and> r' \<noteq> [] \<and> length r' \<le> 500 \<longrightarrow>
            fst (rejectHandover c' i r' s') = Inl NotPending)
       \<and> is_InvalidTransition NotPending"
proof -
  from first obtain x where x: "findHandover s' i = Some x" "status x \<noteq> Pending"
    using approveHandover_Inr[of c i a t s h] rejectHandover_Inr[of c i r s h] by auto
  have "isl (fst (approveHandover c' i a' t' s'))"
    using approve_not_pending(2)[OF x, of c' a' t'] by auto
  moreover have "isl (fst (rejectHandover c' i r' s'))"
    using reject_not_pending(2)[OF x, of c' r'] by auto
  ultimately show ?thesis
    using approve_not_pending(1,3)[OF x, of c' a' t'] reject_not_pending(1,3)[OF x, of c' r']
    by (simp add: is_InvalidTransition_def)
qed

theorem second_decision_refused_witness:
  "fst (approveHandover demo_manager 100 None 6 demo_requested)
     = Inr (demo_request\<lparr> handedOverBy := Some 1, handOverDate := 6, status := HandedOver,
           notesH := Some (approved_notes demo_request demo_manager None) \<rparr>)
   \<and> approveHandover demo_manager 100 None 7
        (snd (approveHandover demo_manager 100 None 6 demo_requested))
     = (Inl NotPending, snd (approveHandover demo_manager 100 None 6 demo_requested))
   \<and> rejectHandover demo_manager 100 ''late'' 
        (snd (approveHandover demo_manager 100 None 6 demo_requested))
     = (Inl NotPending, snd (approveHandover demo_manager 100 None 6 demo_requested))"
proof -
  let ?h1 = "demo_request\<lparr> handedOverBy := Some 1, handOverDate := 6, status := HandedOver,
           notesH := Some (approved_notes demo_request demo_manager None) \<rparr>"
  have hyp: "fst (approveHandover demo_manager 100 None 6 demo_requested) = Inr ?h1"
    by (simp add: demo_requested_eval approveHandover_def approved_notes_def trim_def
          is_space_def interpolate_def or_default_def demo_defs store_defs)
  have perm: "checkPermission PcanManageProducts demo_manager"
    by (simp add: demo_defs store_defs)
  show ?thesis
    using hyp perm
      second_decision_refused[where c = demo_manager and i = 100 and a = None and t = 6
         and s = demo_requested and h = ?h1
         and s' = "snd (approveHandover demo_manager 100 None 6 demo_requested)"
         and c' = demo_manager and a' = None and t' = 7 and r' = "''late''"]
    by (simp add: maxlength_def prod_eq_iff)
qed

section \<open>Approval\<close>

text \<open>
  What an approval by a permitted caller does with a pending handover whose
  product exists, by the stock and by the length of the notes text it builds.
\<close>

lemma approveHandover_outcomes:
  assumes perm: "checkPermission PcanManageProducts caller"
      and val: "maxlength 500 a"
      and h: "findHandover s i = Some h"
      and st: "status h = Pending"
      and pr: "findProduct s (product h) = Some pr"
  shows "(quantity h \<le> stock_quantity pr \<and> length (approved_notes h caller a) \<le> 500 \<longrightarrow>
            (\<exists>h'. fst (approveHandover caller i a now s) = Inr h'
               \<and> status h' = HandedOver \<and> handedOverBy h' = Some (uid caller)
               \<and> handOverDate h' = now \<and> quantity h' = quantity h
               \<and> findHandover (snd (approveHandover caller i a now s)) i = Some (schema_paths h'))
            \<and> stock_of (snd (approveHandover caller i a now s)) (product h)
                = stock_quantity pr - quantity h)
       \<and> (quantity h \<le> stock_quantity pr \<and> 500 < length (approved_notes h caller a) \<longrightarrow>
            approveHandover caller i a now s = (Inl ServerError, s))
       \<and> (stock_quantity pr < quantity h \<longrightarrow>
            approveHandover caller i a now s = (Inl InsufficientStock, s))"
proof (intro conjI impI)
  assume a: "quantity h \<le> stock_quantity pr \<and> length (approved_notes h caller a) \<le> 500"
  let ?h' = "h\<lparr> status := HandedOver, handedOverBy := Some (uid caller), handOverDate := now,
                 approvalNotes := trim_opt a,
                 notesH := Some (approved_notes h caller a) \<rparr>"
  let ?new = "pr\<lparr>stock_quantity := stock_quantity pr - quantity h\<rparr>"
  from a obtain s2 where s2: "product_save now pr ?new (handover_save ?h' s) = Some s2"
    using product_save_Some_iff[of now pr ?new "handover_save ?h' s"] by auto
  have res: "approveHandover caller i a now s = (Inr ?h', s2)"
    using perm val h st pr a s2 by (simp add: approveHandover_def maxlength_def Let_def)
  have "hid ?h' = i" using findHandover_hid[OF h] by simp
  then have "findHandover (handover_save ?h' s) i = Some (schema_paths ?h')"
    using h by (rule findHandover_handover_save_same[rotated])
  then have f: "findHandover s2 i = Some (schema_paths ?h')"
    using findHandover_product_save[OF s2] by simp
  have "findProduct (handover_save ?h' s) (product h) = Some pr" using pr by simp
  then have stk: "stock_of s2 (product h) = stock_quantity pr - quantity h"
    using stock_of_product_save[OF s2, of "product h" "product h"] by simp
  show "\<exists>h'. fst (approveHandover caller i a now s) = Inr h'
               \<and> status h' = HandedOver \<and> handedOverBy h' = Some (uid caller)
               \<and> handOverDate h' = now \<and> quantity h' = quantity h
               \<and> findHandover (snd (approveHandover caller i a now s)) i = Some (schema_paths h')"
    using res f by (intro exI[of _ ?h']) simp
  show "stock_of (snd (approveHandover caller i a now s)) (product h) = stock_quantity pr - quantity h"
    using res stk by simp
next
  assume "quantity h \<le> stock_quantity pr \<and> 500 < length (approved_notes h caller a)"
  then show "approveHandover caller i a now s = (Inl ServerError, s)"
    using perm val h st pr by (simp add: approveHandover_def maxlength_def Let_def)
next
  assume "stock_quantity pr < quantity h"
  then show "approveHandover caller i a now s = (Inl InsufficientStock, s)"
    using perm val h st pr by (simp add: approveHandover_def)
qed

text \<open>
  C5 against the code: the approval of the sample request with approval notes
  of 480 characters, which the route's validator admits (it allows 500),
  meets a pending handover and sufficient stock (10 on hand, 5 requested). The
  route appends the approval notes to the handover's notes, the text grows
  beyond the 500 characters of the schema, the save throws, and the route
  answers with its catch-all server error: the handover stays pending and the
  stock stays 10.
\<close>

theorem approveHandover_long_notes_refused:
  "map status (handovers demo_requested) = [Pending] \<and>
   map quantity (handovers demo_requested) = [5] \<and>
   stock_of demo_requested 10 = 10 \<and>
   checkPermission PcanManageProducts demo_manager \<and>
   maxlength 500 (Some (replicate 480 (CHR ''x''))) \<and>
   length (approved_notes demo_request demo_manager (Some (replicate 480 (CHR ''x'')))) = 536 \<and>
   approveHandover demo_manager 100 (Some (replicate 480 (CHR ''x''))) 6 demo_requested
     = (Inl ServerError, demo_requested)"
  by code_simp

section \<open>Return marked by a manager\<close>

text \<open>
  The manager's route goes through for every status but returned, and adds the
  handover's quantity to the stock each time.
\<close>

lemma markReturnedByManager_guard:
  assumes perm: "checkPermission PcanManageProducts caller"
      and val: "maxlength 500 rn"
      and h: "findHandover s i = Some h"
      and st: "status h \<noteq> Returned"
      and pr: "findProduct s (product h) = Some pr"
      and rng: "0 \<le> stock_quantity pr" "1 \<le> quantity h"
  shows "map_sum id status (fst (markReturnedByManager caller i rn now s)) = Inr Returned"
    and "stock_of (snd (markReturnedByManager caller i rn now s)) (product h)
         = stock_quantity pr + quantity h"
proof -
  let ?h' = "h\<lparr> status := Returned, actualReturnDate := Some now,
                 returnedBy := Some (uid caller), returnNotes := trim_opt rn \<rparr>"
  let ?new = "pr\<lparr>stock_quantity := stock_quantity pr + quantity h\<rparr>"
  obtain s2 where s2: "product_save now pr ?new (handover_save ?h' s) = Some s2"
    using product_save_Some_iff[of now pr ?new "handover_save ?h' s"] rng by auto
  then have res: "markReturnedByManager caller i rn now s = (Inr ?h', s2)"
    using perm val h st pr by (simp add: markReturnedByManager_def Let_def)
  have "findProduct (handover_save ?h' s) (product h) = Some pr" using pr by simp
  then have "stock_of s2 (product h) = stock_quantity pr + quantity h"
    using stock_of_product_save[OF s2, of "product h" "product h"] by simp
  with res show "map_sum id status (fst (markReturnedByManager caller i rn now s)) = Inr Returned"
    and "stock_of (snd (markReturnedByManager caller i rn now s)) (product h)
         = stock_quantity pr + quantity h"
    by simp_all
qed

text \<open>
  C4 against the code: the manager's return route refuses only a handover that
  is already returned. On the sample request, still pending, it succeeds: the
  record becomes returned and the stock rises from 10 to 15 although nothing
  had been handed out.
\<close>

theorem markReturnedByManager_accepts_pending:
  "map status (handovers demo_requested) = [Pending] \<and>
   stock_of demo_requested 10 = 10 \<and>
   map_sum id status (fst (markReturnedByManager demo_manager 100 None 6 demo_requested))
     = Inr Returned \<and>
   stock_of (snd (markReturnedByManager demo_manager 100 None 6 demo_requested)) 10 = 15"
  by (simp add: demo_requested_eval markReturnedByManager_def demo_defs store_defs)

section \<open>Return by the employee\<close>

lemma js_plus_Num [simp]: "js_plus (Num m) (Num n) = Num (m + n)"
  by (simp add: js_plus_def)

lemma js_cmp_Num [simp]:
  "js_gt (Num m) n = (m > n)" "js_ge (Num m) n = (m \<ge> n)" "isInt_min k (Num m) = (k \<le> m)"
  "cast_number (Num m) = Some m"
  by (simp_all add: js_gt_def js_ge_def isInt_min_def cast_number_def to_number_def)

text \<open>
  The employee's route goes through for every return quantity (a number) from
  1 up to the borrowed quantity, whatever has been returned before, and adds
  it to the stock.
\<close>

lemma returnHandover_guard:
  assumes perm: "checkPermission PcanReturnHandover caller"
      and val: "1 \<le> q" "maxlength 500 rn"
      and h: "findHandover s i = Some h"
      and own: "employee h = uid caller"
      and st: "status h = HandedOver"
      and le: "q \<le> quantity h"
      and pr: "findProduct s (product h) = Some pr"
      and rng: "0 \<le> stock_quantity pr"
  shows "\<not> isl (fst (returnHandover caller i (Num q) rn now s))"
    and "stock_of (snd (returnHandover caller i (Num q) rn now s)) (product h)
         = stock_quantity pr + q"
proof -
  let ?total = "js_plus (or_zero (returnedQuantity h)) (Num q)"
  let ?h1 = "h\<lparr> returnedQuantity := Some ?total,
                 returnedBy := Some (uid caller), returnDate := Some now,
                 returnNotes := trim_opt rn \<rparr>"
  let ?h2 = "if js_ge ?total (quantity ?h1) then ?h1\<lparr> status := Returned \<rparr> else ?h1"
  let ?new = "pr\<lparr>stock_quantity := stock_quantity pr + q\<rparr>"
  obtain s2 where s2: "product_save now pr ?new (handover_save ?h2 s) = Some s2"
    using product_save_Some_iff[of now pr ?new "handover_save ?h2 s"] rng val by auto
  have res: "returnHandover caller i (Num q) rn now s = (Inr ?h2, s2)"
    using perm val h own st le pr s2 by (simp add: returnHandover_def Let_def)
  have "findProduct (handover_save ?h2 s) (product h) = Some pr" using pr by simp
  then have "stock_of s2 (product h) = stock_quantity pr + q"
    using stock_of_product_save[OF s2, of "product h" "product h"] by simp
  with res show "\<not> isl (fst (returnHandover caller i (Num q) rn now s))"
    and "stock_of (snd (returnHandover caller i (Num q) rn now s)) (product h)
         = stock_quantity pr + q"
    by simp_all
qed

text \<open>
  A quantity sent as text is concatenated to the stock's digits: with eight
  pieces handed out and a stock of 2, the return of \<open>'8'\<close> is accepted, closes
  the handover and stores a stock of 28.
\<close>

lemma returnHandover_text_quantity:
  "stock_of demo_issued 10 = 2 \<and>
   map_sum id status (fst (returnHandover demo_employee 100 (Str ''8'') None 6 demo_issued))
     = Inr Returned \<and>
   stock_of (snd (returnHandover demo_employee 100 (Str ''8'') None 6 demo_issued)) 10 = 28"
  by code_simp

text \<open>
  C3 against the code: the employee's return route compares the returned
  quantity with the borrowed quantity, not with what is still outstanding.
  With eight pieces handed out, a return of three and then a return of eight
  both succeed, and the stock ends at 13 where it was 10 before the handover.
\<close>

theorem returnHandover_exceeds_outstanding:
  "stock_of demo_store 10 = 10 \<and>
   stock_of demo_issued 10 = 2 \<and>
   map quantity (handovers demo_issued) = [8] \<and>
   map_sum id status (fst (returnHandover demo_employee 100 (Num 3) None 6 demo_issued))
     = Inr HandedOver \<and>
   stock_of (snd (returnHandover demo_employee 100 (Num 3) None 6 demo_issued)) 10 = 5 \<and>
   map_sum id status (fst (returnHandover demo_employee 100 (Num 8) None 7
       (snd (returnHandover demo_employee 100 (Num 3) None 6 demo_issued)))) = Inr Returned \<and>
   stock_of (snd (returnHandover demo_employee 100 (Num 8) None 7
       (snd (returnHandover demo_employee 100 (Num 3) None 6 demo_issued)))) 10 = 13"
  by code_simp

section \<open>Product deletion and renumbering\<close>

subsection \<open>The renumbering loop\<close>

lemma setProductId_Some:
  assumes "\<forall>q \<in> set coll. pid q \<noteq> i \<longrightarrow> productId q \<noteq> Some n"
  shows "setProductId i n coll
         = Some (map (\<lambda>q. if pid q = i then q\<lparr> productId := Some n \<rparr> else q) coll)"
  using assms by (auto simp: setProductId_def)

lemma map_pid_setProductId:
  "map pid (map (\<lambda>q. if pid q = i then q\<lparr> productId := n \<rparr> else q) xs) = map pid xs"
  by (induction xs) auto

lemma map_erase_setProductId:
  "map erase_number (map (\<lambda>q. if pid q = i then q\<lparr> productId := n \<rparr> else q) xs)
   = map erase_number xs"
  by (induction xs) (auto simp: erase_number_def)

lemma renumber_general:
  assumes "distinct (map pid coll)" "distinct (map pid rest)" "set rest \<subseteq> set coll"
      and "\<forall>q \<in> set coll. q \<notin> set rest \<longrightarrow> (\<forall>k < length rest. productId q \<noteq> Some (i + k + 1))"
      and "\<forall>j < length rest. \<forall>k < j. productId (rest ! j) \<noteq> Some (i + k + 1)"
  shows "\<exists>coll'. renumber i rest coll = (True, coll')
           \<and> map erase_number coll' = map erase_number coll
           \<and> (\<forall>q \<in> set coll. pid q \<notin> pid ` set rest \<longrightarrow> q \<in> set coll')
           \<and> (\<forall>k < length rest. \<exists>q \<in> set coll'. pid q = pid (rest ! k)
                                    \<and> productId q = Some (i + k + 1))"
  using assms
proof (induction rest arbitrary: i coll)
  case Nil
  then show ?case by simp
next
  case (Cons p ps)
  have p_in: "p \<in> set coll" and ps_in: "set ps \<subseteq> set coll" using Cons.prems(3) by auto
  have p_fresh: "pid p \<notin> pid ` set ps" and ps_dist: "distinct (map pid ps)"
    using Cons.prems(2) by auto
  have prem4: "\<And>q k. q \<in> set coll \<Longrightarrow> q \<notin> set (p # ps) \<Longrightarrow> k < Suc (length ps)
                 \<Longrightarrow> productId q \<noteq> Some (i + k + 1)"
    using Cons.prems(4) by simp
  have later: "\<forall>j < length ps. \<forall>k < j. productId (ps ! j) \<noteq> Some (Suc i + k + 1)"
  proof (intro allI impI)
    fix j k assume "j < length ps" "k < j"
    then have "productId ((p # ps) ! Suc j) \<noteq> Some (i + Suc k + 1)"
      using Cons.prems(5)[rule_format, of "Suc j" "Suc k"] by simp
    then show "productId (ps ! j) \<noteq> Some (Suc i + k + 1)" by simp
  qed
  have ps_first: "\<forall>x \<in> set ps. productId x \<noteq> Some (i + 1)"
  proof
    fix x assume "x \<in> set ps"
    then obtain j where "j < length ps" "ps ! j = x" by (auto simp: in_set_conv_nth)
    then have "productId ((p # ps) ! Suc j) \<noteq> Some (i + 0 + 1)"
      using Cons.prems(5)[rule_format, of "Suc j" 0] by simp
    with \<open>ps ! j = x\<close> show "productId x \<noteq> Some (i + 1)" by simp
  qed
  show ?case
  proof (cases "productId p = Some (i + 1)")
    case True
    have pre4: "\<forall>q \<in> set coll. q \<notin> set ps \<longrightarrow>
                  (\<forall>k < length ps. productId q \<noteq> Some (Suc i + k + 1))"
    proof (intro ballI impI allI)
      fix q k assume q: "q \<in> set coll" "q \<notin> set ps" "k < length ps"
      show "productId q \<noteq> Some (Suc i + k + 1)"
      proof (cases "q = p")
        case True
        then show ?thesis using \<open>productId p = Some (i + 1)\<close> by simp
      next
        case False
        then have "q \<notin> set (p # ps)" using q by simp
        then have "productId q \<noteq> Some (i + Suc k + 1)"
          using prem4[of q "Suc k"] q by simp
        then show ?thesis by simp
      qed
    qed
    from Cons.IH[OF Cons.prems(1) ps_dist ps_in pre4 later]
    obtain coll' where c: "renumber (Suc i) ps coll = (True, coll')"
      "map erase_number coll' = map erase_number coll"
      "\<forall>q \<in> set coll. pid q \<notin> pid ` set ps \<longrightarrow> q \<in> set coll'"
      "\<forall>k < length ps. \<exists>q \<in> set coll'. pid q = pid (ps ! k) \<and> productId q = Some (Suc i + k + 1)"
      by (elim exE conjE)
    have r: "renumber i (p # ps) coll = (True, coll')" using True c(1) by simp
    have p': "p \<in> set coll'" using c(3) p_in p_fresh by blast
    have num: "\<forall>k < length (p # ps). \<exists>q \<in> set coll'. pid q = pid ((p # ps) ! k)
                 \<and> productId q = Some (i + k + 1)"
    proof (intro allI impI)
      fix k assume k: "k < length (p # ps)"
      show "\<exists>q \<in> set coll'. pid q = pid ((p # ps) ! k) \<and> productId q = Some (i + k + 1)"
      proof (cases k)
        case 0
        then show ?thesis using p' True by auto
      next
        case (Suc m)
        then show ?thesis using c(4) k by auto
      qed
    qed
    have keep: "\<forall>q \<in> set coll. pid q \<notin> pid ` set (p # ps) \<longrightarrow> q \<in> set coll'"
      using c(3) by auto
    have "renumber i (p # ps) coll = (True, coll')
           \<and> map erase_number coll' = map erase_number coll
           \<and> (\<forall>q \<in> set coll. pid q \<notin> pid ` set (p # ps) \<longrightarrow> q \<in> set coll')
           \<and> (\<forall>k < length (p # ps). \<exists>q \<in> set coll'. pid q = pid ((p # ps) ! k)
                                    \<and> productId q = Some (i + k + 1))"
      using r c(2) keep num by (intro conjI)
    then show ?thesis by (rule exI)
  next
    case False
    let ?p' = "p\<lparr> productId := Some (i + 1) \<rparr>"
    let ?coll1 = "map (\<lambda>q. if pid q = pid p then q\<lparr> productId := Some (i + 1) \<rparr> else q) coll"
    have noconf: "\<forall>q \<in> set coll. pid q \<noteq> pid p \<longrightarrow> productId q \<noteq> Some (i + 1)"
    proof (intro ballI impI)
      fix q assume q: "q \<in> set coll" "pid q \<noteq> pid p"
      show "productId q \<noteq> Some (i + 1)"
      proof (cases "q \<in> set ps")
        case True
        then show ?thesis using ps_first by simp
      next
        case False
        then have "q \<notin> set (p # ps)" using q by auto
        then have "productId q \<noteq> Some (i + 0 + 1)" using prem4[of q 0] q by simp
        then show ?thesis by simp
      qed
    qed
    have s1: "setProductId (pid p) (i + 1) coll = Some ?coll1"
      using setProductId_Some[OF noconf] .
    have d1: "distinct (map pid ?coll1)"
    proof -
      show ?thesis using Cons.prems(1) by (simp only: map_pid_setProductId)
    qed
    have unique: "\<And>q. q \<in> set coll \<Longrightarrow> pid q = pid p \<Longrightarrow> q = p"
      using Cons.prems(1) p_in by (auto simp: distinct_map inj_on_def)
    have "(\<lambda>q. if pid q = pid p then q\<lparr> productId := Some (i + 1) \<rparr> else q) ` set coll
          = (\<lambda>q. if q = p then ?p' else q) ` set coll"
    proof (rule image_cong[OF refl])
      fix q assume "q \<in> set coll"
      then have "pid q = pid p \<longleftrightarrow> q = p" using unique[of q] by blast
      then show "(if pid q = pid p then q\<lparr> productId := Some (i + 1) \<rparr> else q)
                 = (if q = p then ?p' else q)" by simp
    qed
    also have "\<dots> = insert ?p' (set coll - {p})" using p_in by auto
    finally have set1: "set ?coll1 = insert ?p' (set coll - {p})" by simp
    have ps_in1: "set ps \<subseteq> set ?coll1"
    proof
      fix x assume x: "x \<in> set ps"
      then have "x \<in> set coll" "x \<noteq> p" using ps_in p_fresh by auto
      then show "x \<in> set ?coll1" using set1 by simp
    qed
    have pre4: "\<forall>q \<in> set ?coll1. q \<notin> set ps \<longrightarrow>
                  (\<forall>k < length ps. productId q \<noteq> Some (Suc i + k + 1))"
    proof (intro ballI impI allI)
      fix q k assume q: "q \<in> set ?coll1" "q \<notin> set ps" "k < length ps"
      show "productId q \<noteq> Some (Suc i + k + 1)"
      proof (cases "q = ?p'")
        case True
        then show ?thesis by simp
      next
        case False
        then have "q \<in> set coll" "q \<noteq> p" using q set1 by auto
        then have "q \<notin> set (p # ps)" using q by simp
        then have "productId q \<noteq> Some (i + Suc k + 1)"
          using prem4[of q "Suc k"] \<open>q \<in> set coll\<close> q by simp
        then show ?thesis by simp
      qed
    qed
    from Cons.IH[OF d1 ps_dist ps_in1 pre4 later]
    obtain coll' where c: "renumber (Suc i) ps ?coll1 = (True, coll')"
      "map erase_number coll' = map erase_number ?coll1"
      "\<forall>q \<in> set ?coll1. pid q \<notin> pid ` set ps \<longrightarrow> q \<in> set coll'"
      "\<forall>k < length ps. \<exists>q \<in> set coll'. pid q = pid (ps ! k) \<and> productId q = Some (Suc i + k + 1)"
      by (elim exE conjE)
    have r: "renumber i (p # ps) coll = (True, coll')" using False s1 c(1) by simp
    have e: "map erase_number ?coll1 = map erase_number coll"
      by (rule map_erase_setProductId)
    have p': "?p' \<in> set coll'" using c(3) set1 p_fresh by auto
    have num: "\<forall>k < length (p # ps). \<exists>q \<in> set coll'. pid q = pid ((p # ps) ! k)
                 \<and> productId q = Some (i + k + 1)"
    proof (intro allI impI)
      fix k assume k: "k < length (p # ps)"
      show "\<exists>q \<in> set coll'. pid q = pid ((p # ps) ! k) \<and> productId q = Some (i + k + 1)"
      proof (cases k)
        case 0
        then show ?thesis using p' by (intro bexI[of _ ?p']) simp_all
      next
        case (Suc m)
        then show ?thesis using c(4) k by auto
      qed
    qed
    have keep: "\<forall>q \<in> set coll. pid q \<notin> pid ` set (p # ps) \<longrightarrow> q \<in> set coll'"
    proof (intro ballI impI)
      fix q assume q: "q \<in> set coll" "pid q \<notin> pid ` set (p # ps)"
      then have "q \<noteq> p" by auto
      then have "q \<in> set ?coll1" using q set1 by simp
      then show "q \<in> set coll'" using c(3) q by auto
    qed
    have e': "map erase_number coll' = map erase_number coll" using c(2) e by simp
    have "renumber i (p # ps) coll = (True, coll')
           \<and> map erase_number coll' = map erase_number coll
           \<and> (\<forall>q \<in> set coll. pid q \<notin> pid ` set (p # ps) \<longrightarrow> q \<in> set coll')
           \<and> (\<forall>k < length (p # ps). \<exists>q \<in> set coll'. pid q = pid ((p # ps) ! k)
                                    \<and> productId q = Some (i + k + 1))"
      using r e' keep num by (intro conjI)
    then show ?thesis by (rule exI)
  qed
qed

subsection \<open>The route: delete, renumber, reset the counter\<close>

lemma insort_key_map_commute:
  assumes "\<And>x. f (g x) = f x"
  shows "insort_key f (g x) (map g ys) = map g (insort_key f x ys)"
  by (induction ys) (simp_all add: assms)

lemma sort_key_map_commute:
  assumes "\<And>x. f (g x) = f x"
  shows "sort_key f (map g xs) = map g (sort_key f xs)"
  by (induction xs) (simp_all add: insort_key_map_commute[where f = f and g = g, OF assms])

lemma erase_number_fields [simp]:
  "pid (erase_number q) = pid q" "createdAt (erase_number q) = createdAt q"
  by (simp_all add: erase_number_def)

lemma map_pid_erase: "map erase_number xs = map erase_number ys \<Longrightarrow> map pid xs = map pid ys"
proof -
  assume a: "map erase_number xs = map erase_number ys"
  have "map pid xs = map pid (map erase_number xs)" by simp
  also have "\<dots> = map pid (map erase_number ys)" using a by simp
  also have "\<dots> = map pid ys" by simp
  finally show ?thesis .
qed

lemma sorted_erase:
  assumes "map erase_number xs = map erase_number ys"
  shows "map erase_number (sort_key createdAt xs) = map erase_number (sort_key createdAt ys)"
proof -
  have "map erase_number (sort_key createdAt xs) = sort_key createdAt (map erase_number xs)"
    by (rule sort_key_map_commute[symmetric]) simp
  also have "\<dots> = sort_key createdAt (map erase_number ys)" using assms by simp
  also have "\<dots> = map erase_number (sort_key createdAt ys)"
    by (rule sort_key_map_commute) simp
  finally show ?thesis .
qed

lemma resetProductCounter_dense:
  assumes d: "distinct (map pid (products s))"
      and nc: "no_clash (sort_key createdAt (products s))"
  shows "\<exists>s'. resetProductCounter s = (True, s') \<and> dense s'
           \<and> map erase_number (products s') = map erase_number (products s)"
proof -
  let ?snap = "sort_key createdAt (products s)"
  have d2: "distinct (map pid ?snap)"
    using d by (simp add: distinct_map)
  have sub: "set ?snap \<subseteq> set (products s)" by simp
  have p4: "\<forall>q \<in> set (products s). q \<notin> set ?snap \<longrightarrow>
              (\<forall>k < length ?snap. productId q \<noteq> Some (0 + k + 1))" by simp
  have p5: "\<forall>j < length ?snap. \<forall>k < j. productId (?snap ! j) \<noteq> Some (0 + k + 1)"
    using nc by (simp add: no_clash_def)
  from renumber_general[OF d d2 sub p4 p5]
  obtain coll' where c: "renumber 0 ?snap (products s) = (True, coll')"
      "map erase_number coll' = map erase_number (products s)"
      "\<forall>k < length ?snap. \<exists>q \<in> set coll'. pid q = pid (?snap ! k)
                                    \<and> productId q = Some (0 + k + 1)"
    by (elim exE conjE)
  let ?s' = "s\<lparr> products := coll', counter := Some (length ?snap) \<rparr>"
  have res: "resetProductCounter s = (True, ?s')"
    using c(1) by (simp add: resetProductCounter_def Let_def)
  let ?sorted = "sort_key createdAt coll'"
  have len: "length coll' = length (products s)"
    using arg_cong[OF c(2), of length] by simp
  have pids: "map pid coll' = map pid (products s)" using c(2) by (rule map_pid_erase)
  have d': "distinct (map pid coll')" using pids d by simp
  have se: "map erase_number ?sorted = map erase_number ?snap" using c(2) by (rule sorted_erase)
  have sp: "map pid ?sorted = map pid ?snap" using se by (rule map_pid_erase)
  have nth: "\<And>k. k < length coll' \<Longrightarrow> productId (?sorted ! k) = Some (k + 1)"
  proof -
    fix k assume k: "k < length coll'"
    then have k': "k < length ?snap" using len by simp
    then obtain q where q: "q \<in> set coll'" "pid q = pid (?snap ! k)" "productId q = Some (k + 1)"
      using c(3) by auto
    have "map pid ?sorted ! k = map pid ?snap ! k" by (simp only: sp)
    then have same: "pid (?sorted ! k) = pid q" using k k' q(2) by simp
    have "?sorted ! k \<in> set ?sorted" by (rule nth_mem) (simp add: k)
    then have mem: "?sorted ! k \<in> set coll'" by simp
    have "inj_on pid (set coll')" using d' by (simp add: distinct_map)
    from inj_onD[OF this same mem q(1)] have "?sorted ! k = q" .
    then show "productId (?sorted ! k) = Some (k + 1)" using q by simp
  qed
  have "map productId ?sorted = map Some [1 ..< length coll' + 1]"
  proof (rule nth_equalityI)
    show "length (map productId ?sorted) = length (map Some [1 ..< length coll' + 1])"
      by (simp only: length_map length_sort length_upt)
  next
    fix k assume "k < length (map productId ?sorted)"
    then have k: "k < length coll'" by simp
    have "[1 ..< length coll' + 1] ! k = 1 + k" using k by (intro nth_upt) simp
    then show "map productId ?sorted ! k = map Some [1 ..< length coll' + 1] ! k"
      using nth[OF k] k by (simp del: upt_Suc)
  qed
  then have "dense ?s'" using len by (simp add: dense_def)
  with res c(2) show ?thesis by simp
qed

lemma deleteProductRoute_renumbers:
  assumes perm: "checkPermission PcanDeleteProducts caller"
      and found: "findProduct s i = Some pr"
      and d: "distinct (map pid (products s))"
      and nc: "no_clash (sort_key createdAt (filter (\<lambda>q. pid q \<noteq> i) (products s)))"
  shows "fst (deleteProductRoute caller i s) = Inr pr
       \<and> dense (snd (deleteProductRoute caller i s))
       \<and> map erase_number (products (snd (deleteProductRoute caller i s)))
           = map erase_number (filter (\<lambda>q. pid q \<noteq> i) (products s))"
proof -
  let ?s1 = "s\<lparr> products := filter (\<lambda>q. pid q \<noteq> i) (products s) \<rparr>"
  have d1: "distinct (map pid (products ?s1))" using d by (simp add: distinct_map_filter)
  have nc1: "no_clash (sort_key createdAt (products ?s1))" using nc by simp
  from resetProductCounter_dense[OF d1 nc1]
  obtain s' where s': "resetProductCounter ?s1 = (True, s')" "dense s'"
      "map erase_number (products s') = map erase_number (products ?s1)"
    by (elim exE conjE)
  have "deleteProductRoute caller i s = (Inr pr, s')"
    using perm found s'(1) by (simp add: deleteProductRoute_def)
  with s' show ?thesis by simp
qed

lemma filter_nth_ge:
  "j < length (filter P xs) \<Longrightarrow> \<exists>m. j \<le> m \<and> m < length xs \<and> filter P xs ! j = xs ! m"
proof (induction xs arbitrary: j)
  case Nil
  then show ?case by simp
next
  case (Cons x xs)
  show ?case
  proof (cases "P x")
    case True
    show ?thesis
    proof (cases j)
      case 0
      then show ?thesis using True by (intro exI[of _ 0]) simp
    next
      case (Suc j')
      then have "j' < length (filter P xs)" using Cons.prems True by simp
      from Cons.IH[OF this] obtain m where "j' \<le> m" "m < length xs" "filter P xs ! j' = xs ! m"
        by blast
      then show ?thesis using True Suc by (intro exI[of _ "Suc m"]) simp
    qed
  next
    case False
    then have "j < length (filter P xs)" using Cons.prems by simp
    from Cons.IH[OF this] obtain m where "j \<le> m" "m < length xs" "filter P xs ! j = xs ! m"
      by blast
    then show ?thesis using False by (intro exI[of _ "Suc m"]) simp
  qed
qed

lemma no_clash_filter:
  assumes "map productId xs = map Some [1 ..< length xs + 1]"
  shows "no_clash (filter P xs)"
  unfolding no_clash_def
proof (intro allI impI)
  fix j k assume j: "j < length (filter P xs)" and k: "k < j"
  from filter_nth_ge[OF j] obtain m where m: "j \<le> m" "m < length xs" "filter P xs ! j = xs ! m"
    by blast
  have "map productId xs ! m = map Some [1 ..< length xs + 1] ! m" by (simp only: assms)
  moreover have "[1 ..< length xs + 1] ! m = 1 + m" using m(2) by (intro nth_upt) simp
  ultimately have "productId (xs ! m) = Some (1 + m)" using m(2) by (simp del: upt_Suc)
  then show "productId (filter P xs ! j) \<noteq> Some (k + 1)" using m k by simp
qed

lemma deleteProductRoute_keeps_dense:
  assumes perm: "checkPermission PcanDeleteProducts caller"
      and found: "findProduct s i = Some pr"
      and d: "distinct (map pid (products s))"
      and dn: "dense s"
  shows "fst (deleteProductRoute caller i s) = Inr pr \<and> dense (snd (deleteProductRoute caller i s))
         \<and> distinct (map pid (products (snd (deleteProductRoute caller i s))))"
proof -
  let ?snap = "sort_key createdAt (products s)"
  have "map productId ?snap = map Some [1 ..< length ?snap + 1]" using dn by (simp add: dense_def)
  then have "no_clash (filter (\<lambda>q. pid q \<noteq> i) ?snap)" by (rule no_clash_filter)
  then have "no_clash (sort_key createdAt (filter (\<lambda>q. pid q \<noteq> i) (products s)))"
    by (simp add: filter_sort)
  note r = deleteProductRoute_renumbers[OF perm found d this]
  have "map pid (products (snd (deleteProductRoute caller i s)))
        = map pid (filter (\<lambda>q. pid q \<noteq> i) (products s))"
    using r by (intro map_pid_erase) simp
  then have "distinct (map pid (products (snd (deleteProductRoute caller i s))))"
    using d by (simp add: distinct_map_filter)
  with r show ?thesis by simp
qed

subsection \<open>Creation keeps the numbering dense\<close>

text \<open>
  A product created when the clock has not gone back behind an existing
  creation time gets the next number and sorts last, so a dense catalogue
  stays dense; the first product of an empty catalogue gets number 1. With
  the deletion route, every catalogue the routes build is dense.
\<close>

lemma insort_key_last:
  "\<forall>y \<in> set ys. f y \<le> f p \<Longrightarrow> f x \<le> f p \<Longrightarrow>
   insort_key f x (ys @ [p]) = insort_key f x ys @ [p]"
  by (induction ys) auto

lemma set_foldr_insort: "set (foldr (insort_key f) xs []) = set xs"
  by (induction xs) (simp_all add: set_insort_key)

lemma sort_key_snoc:
  assumes "\<forall>x \<in> set xs. f x \<le> f p"
  shows "sort_key f (xs @ [p]) = sort_key f xs @ [p]"
proof -
  have "foldr (insort_key f) xs [p] = foldr (insort_key f) xs [] @ [p]"
    using assms
  proof (induction xs)
    case Nil
    then show ?case by simp
  next
    case (Cons x xs)
    then have ih: "foldr (insort_key f) xs [p] = foldr (insort_key f) xs [] @ [p]" by simp
    have "\<forall>y \<in> set (foldr (insort_key f) xs []). f y \<le> f p"
      using Cons.prems by (simp add: set_foldr_insort)
    then show ?case using ih Cons.prems by (simp add: insort_key_last)
  qed
  then show ?thesis by (simp add: sort_key_def)
qed

lemma createProduct_keeps_dense:
  assumes perm: "checkPermission PcanAddProducts caller"
      and val: "2 \<le> length (trim (name_in body))" "length (trim (name_in body)) \<le> 100"
               "0 \<le> stockQuantity_in body" "0 < files_in body"
      and fresh: "findProduct s newId = None"
      and clock: "\<forall>q \<in> set (products s). createdAt q \<le> now"
      and dn: "dense s"
  shows "\<not> isl (fst (createProduct caller body now newId s))
       \<and> dense (snd (createProduct caller body now newId s))
       \<and> length (products (snd (createProduct caller body now newId s)))
           = length (products s) + 1"
proof -
  let ?n = "length (products s)"
  let ?p = "\<lparr> pid = newId, productId = Some (?n + 1), name = trim (name_in body),
              stock_quantity = stockQuantity_in body, lastRestocked = now, createdAt = now \<rparr>"
  have cnt: "counter s = Some ?n" and ids: "map productId (sort_key createdAt (products s))
      = map Some [1 ..< ?n + 1]"
    using dn by (simp_all add: dense_def)
  have nx: "next_seq (counter s) = ?n + 1" using cnt by (simp add: next_seq_def)
  have "productId ` set (products s) = set (map productId (sort_key createdAt (products s)))"
    by simp
  also have "\<dots> = Some ` {1 ..< ?n + 1}" by (simp only: ids set_map set_upt)
  finally have "Some (?n + 1) \<notin> productId ` set (products s)" by auto
  then have nodup: "\<not> (\<exists>q \<in> set (products s). productId q = Some (?n + 1))" by force
  have res: "createProduct caller body now newId s
             = (Inr ?p, s\<lparr> counter := Some (?n + 1), products := products s @ [?p] \<rparr>)"
    using perm val fresh nodup nx by (simp add: createProduct_def Let_def)
  have srt: "sort_key createdAt (products s @ [?p]) = sort_key createdAt (products s) @ [?p]"
    using clock by (intro sort_key_snoc) simp
  have "map productId (sort_key createdAt (products s @ [?p])) = map Some [1 ..< ?n + 1 + 1]"
    by (simp only: srt map_append ids) simp
  then have "dense (s\<lparr> counter := Some (?n + 1), products := products s @ [?p] \<rparr>)"
    by (simp add: dense_def)
  with res show ?thesis by simp
qed

lemma createProduct_first_dense:
  assumes perm: "checkPermission PcanAddProducts caller"
      and val: "2 \<le> length (trim (name_in body))" "length (trim (name_in body)) \<le> 100"
               "0 \<le> stockQuantity_in body" "0 < files_in body"
      and empty: "products s = []" "counter s = None"
  shows "\<not> isl (fst (createProduct caller body now newId s))
       \<and> dense (snd (createProduct caller body now newId s))"
  using assms
  by (simp add: createProduct_def Let_def next_seq_def findProduct_def dense_def)

subsection \<open>The controller\<close>

text \<open>
  \<open>ProductController.deleteProduct\<close> removes the product and nothing else: on
  the sample catalogue it leaves the numbers 2, 3 and the counter at 3. No
  route mounts the controller; the deletion the program performs is the route
  above.
\<close>

lemma deleteProduct_controller_no_renumbering:
  "fst (deleteProduct 10 demo_catalog) = Inr () \<and>
   map productId (products (snd (deleteProduct 10 demo_catalog))) = [Some 2, Some 3] \<and>
   counter (snd (deleteProduct 10 demo_catalog)) = Some 3"
  by code_simp

subsection \<open>Deletion renumbers\<close>

text \<open>
  C8. After the deletion of a product through \<open>DELETE /api/products/:id\<close>,
  the remaining products are the same documents in everything but their
  sequence number; read in the order of their creation time their numbers are
  1, 2, ..., N; and the counter stands at N, the number of products left. This
  holds for every catalogue in which no product holds a number that the loop
  assigns to an earlier position of the creation order, the unique index
  then refusing nothing: it is so wherever the numbers grow with the creation
  time, in particular in every dense catalogue (lemma
  \<open>deleteProductRoute_keeps_dense\<close>).
\<close>

theorem product_deletion_renumbers:
  assumes perm: "checkPermission PcanDeleteProducts caller"
      and found: "findProduct s i = Some pr"
      and ids: "distinct (map pid (products s))"
      and inorder: "no_clash (sort_key createdAt (filter (\<lambda>q. pid q \<noteq> i) (products s)))"
  shows "fst (deleteProductRoute caller i s) = Inr pr
       \<and> findProduct (snd (deleteProductRoute caller i s)) i = None
       \<and> map erase_number (products (snd (deleteProductRoute caller i s)))
           = map erase_number (filter (\<lambda>q. pid q \<noteq> i) (products s))
       \<and> map productId (sort_key createdAt (products (snd (deleteProductRoute caller i s))))
           = map Some [1 ..< length (products (snd (deleteProductRoute caller i s))) + 1]
       \<and> counter (snd (deleteProductRoute caller i s))
           = Some (length (products (snd (deleteProductRoute caller i s))))"
proof -
  let ?s' = "snd (deleteProductRoute caller i s)"
  note r = deleteProductRoute_renumbers[OF perm found ids inorder]
  have eq: "map pid (products ?s') = map pid (filter (\<lambda>q. pid q \<noteq> i) (products s))"
    using r by (intro map_pid_erase) simp
  have ni: "i \<notin> set (map pid (filter (\<lambda>q. pid q \<noteq> i) (products s)))" by auto
  have "i \<notin> set (map pid (products ?s'))" unfolding eq by (rule ni)
  then have "findProduct ?s' i = None"
    by (auto simp: findProduct_def find_None_iff)
  with r show ?thesis by (simp add: dense_def)
qed

theorem product_deletion_renumbers_witness:
  "checkPermission PcanDeleteProducts demo_admin
   \<and> distinct (map pid (products demo_catalog))
   \<and> no_clash (sort_key createdAt (filter (\<lambda>q. pid q \<noteq> 10) (products demo_catalog)))
   \<and> map_sum id pid (fst (deleteProductRoute demo_admin 10 demo_catalog)) = Inr 10
   \<and> map pid (products (snd (deleteProductRoute demo_admin 10 demo_catalog))) = [11, 12]
   \<and> map productId (products (snd (deleteProductRoute demo_admin 10 demo_catalog)))
       = [Some 1, Some 2]
   \<and> counter (snd (deleteProductRoute demo_admin 10 demo_catalog)) = Some 2"
proof -
  let ?pr = "\<lparr> pid = 10, productId = Some 1, name = ''Drill'', stock_quantity = 10,
               lastRestocked = 1, createdAt = 1 \<rparr>"
  have perm: "checkPermission PcanDeleteProducts demo_admin" by code_simp
  have found: "findProduct demo_catalog 10 = Some ?pr" by code_simp
  have ids: "distinct (map pid (products demo_catalog))" by code_simp
  have inorder: "no_clash (sort_key createdAt (filter (\<lambda>q. pid q \<noteq> 10) (products demo_catalog)))"
    by code_simp
  have shape: "map pid (products (snd (deleteProductRoute demo_admin 10 demo_catalog))) = [11, 12]"
    "map productId (products (snd (deleteProductRoute demo_admin 10 demo_catalog)))
       = [Some 1, Some 2]"
    by code_simp+
  from product_deletion_renumbers[OF perm found ids inorder]
  have "fst (deleteProductRoute demo_admin 10 demo_catalog) = Inr ?pr"
    and "counter (snd (deleteProductRoute demo_admin 10 demo_catalog))
         = Some (length (products (snd (deleteProductRoute demo_admin 10 demo_catalog))))"
    by simp_all
  moreover have "length (products (snd (deleteProductRoute demo_admin 10 demo_catalog))) = 2"
    using arg_cong[OF shape(1), of length] by simp
  ultimately show ?thesis using perm ids inorder shape by simp
qed

section \<open>Stock is never negative\<close>

lemma nonneg_cong: "products s' = products s \<Longrightarrow> nonneg s' = nonneg s"
  by (simp add: nonneg_def)

lemma nonneg_product_save:
  "product_save now old new s = Some s' \<Longrightarrow> nonneg s \<Longrightarrow> nonneg s'"
  by (auto simp: product_save_def nonneg_def split: if_splits)

lemma nonneg_handover_save [simp]: "nonneg (handover_save h s) = nonneg s"
  by (simp add: nonneg_def)

lemma nonneg_handover_delete [simp]: "nonneg (handover_delete i s) = nonneg s"
  by (simp add: nonneg_def)

lemma nonneg_handover_insert: "handover_insert h s = Some s' \<Longrightarrow> nonneg s' = nonneg s"
  by (simp add: nonneg_def handover_insert_other_fields)

lemma nonneg_createProduct: "nonneg s \<Longrightarrow> nonneg (snd (createProduct caller body now newId s))"
  by (auto simp: createProduct_def Let_def nonneg_def)

lemma nonneg_updateStock: "nonneg s \<Longrightarrow> nonneg (snd (updateStock caller i operation q now s))"
  by (auto simp: updateStock_def Let_def split: option.splits dest: nonneg_product_save)

lemma nonneg_createDirectHandover:
  "nonneg s \<Longrightarrow> nonneg (snd (createDirectHandover caller body now newId s))"
  by (auto simp: createDirectHandover_def Let_def nonneg_handover_insert
           split: option.splits dest: nonneg_product_save)

lemma nonneg_createHandoverRequest:
  "nonneg s \<Longrightarrow> nonneg (snd (createHandoverRequest caller p q reason now newId s))"
  by (auto simp: createHandoverRequest_def Let_def nonneg_handover_insert split: option.splits)

lemma nonneg_approveHandover:
  "nonneg s \<Longrightarrow> nonneg (snd (approveHandover caller i a now s))"
  by (auto simp: approveHandover_def Let_def split: option.splits dest: nonneg_product_save)

lemma nonneg_rejectHandover:
  "nonneg s \<Longrightarrow> nonneg (snd (rejectHandover caller i r s))"
  by (auto simp: rejectHandover_def Let_def split: option.splits)

lemma nonneg_returnHandover:
  "nonneg s \<Longrightarrow> nonneg (snd (returnHandover caller i q rn now s))"
  by (auto simp: returnHandover_def Let_def split: option.splits dest: nonneg_product_save)

lemma nonneg_markReturnedByManager:
  "nonneg s \<Longrightarrow> nonneg (snd (markReturnedByManager caller i rn now s))"
  by (auto simp: markReturnedByManager_def Let_def split: option.splits dest: nonneg_product_save)

lemma nonneg_deleteHandover:
  "nonneg s \<Longrightarrow> nonneg (snd (deleteHandover caller i now s))"
  by (auto simp: deleteHandover_def Let_def split: option.splits if_splits dest: nonneg_product_save)

lemma nonneg_step: "nonneg s \<Longrightarrow> nonneg (step op s)"
  by (cases op)
     (simp_all add: nonneg_createProduct nonneg_updateStock nonneg_createDirectHandover
        nonneg_createHandoverRequest nonneg_approveHandover nonneg_rejectHandover
        nonneg_returnHandover nonneg_markReturnedByManager nonneg_deleteHandover)

text \<open>
  C2. Whatever sequence of operations runs (product creation, direct stock
  add and subtract, direct handover, request, approval, rejection, both
  returns, handover deletion), no product's stock quantity is negative
  afterwards, given that none was before.
\<close>

theorem stock_never_negative: "nonneg s \<Longrightarrow> nonneg (run ops s)"
  by (induction ops arbitrary: s) (simp_all add: nonneg_step)

theorem stock_never_negative_witness:
  "nonneg demo_store \<and> nonneg (run demo_ops2 demo_store)
   \<and> map stock_quantity (products (run (take 5 demo_ops2) demo_store)) = [0, 0]
   \<and> map stock_quantity (products (run demo_ops2 demo_store)) = [19, 0]"
proof -
  have hyp: "nonneg demo_store" by code_simp
  have "map stock_quantity (products (run (take 5 demo_ops2) demo_store)) = [0, 0]"
    by code_simp
  moreover have "map stock_quantity (products (run demo_ops2 demo_store)) = [19, 0]"
    by code_simp
  ultimately show ?thesis
    using hyp stock_never_negative[OF hyp, of demo_ops2] by simp
qed

section \<open>Stock conservation\<close>

text \<open>
  C1 against the code: stock plus the quantities of the handed_over records
  is not conserved. The product starts with ten pieces and nothing handed out.
  After a direct handover of eight the sum is still 10 (stock 2, committed 8).
  The employee then returns three and returns eight: both calls succeed, the
  record is returned, nothing is committed any more, and the stock is 13. In
  the same way the manager's return of a request of five pieces that was never
  approved leaves nothing committed and a stock of 15. No stock was set or
  adjusted from outside in either run.
\<close>

theorem ledger_not_conserved:
  "ledger demo_store 10 = 10 \<and>
   stock_of demo_issued 10 = 2 \<and> committed demo_issued 10 = 8 \<and>
   ledger demo_issued 10 = 10 \<and>
   map status (handovers (run [OpDirect demo_manager (demo_issue 8 None) 5 100,
                               OpReturn demo_employee 100 (Num 3) None 6,
                               OpReturn demo_employee 100 (Num 8) None 7] demo_store))
     = [Returned] \<and>
   committed (run [OpDirect demo_manager (demo_issue 8 None) 5 100,
                   OpReturn demo_employee 100 (Num 3) None 6,
                   OpReturn demo_employee 100 (Num 8) None 7] demo_store) 10 = 0 \<and>
   stock_of (run [OpDirect demo_manager (demo_issue 8 None) 5 100,
                  OpReturn demo_employee 100 (Num 3) None 6,
                  OpReturn demo_employee 100 (Num 8) None 7] demo_store) 10 = 13 \<and>
   ledger (run [OpDirect demo_manager (demo_issue 8 None) 5 100,
                OpReturn demo_employee 100 (Num 3) None 6,
                OpReturn demo_employee 100 (Num 8) None 7] demo_store) 10 = 13 \<and>
   map status (handovers (run [OpRequest demo_employee 10 5 ''site work'' 5 100,
                               OpManagerReturn demo_manager 100 None 6] demo_store))
     = [Returned] \<and>
   committed (run [OpRequest demo_employee 10 5 ''site work'' 5 100,
                   OpManagerReturn demo_manager 100 None 6] demo_store) 10 = 0 \<and>
   stock_of (run [OpRequest demo_employee 10 5 ''site work'' 5 100,
                  OpManagerReturn demo_manager 100 None 6] demo_store) 10 = 15 \<and>
   ledger (run [OpRequest demo_employee 10 5 ''site work'' 5 100,
                OpManagerReturn demo_manager 100 None 6] demo_store) 10 = 15"
  by code_simp

end
